theory Spec2Isabelle
  imports Main "HOL-Library.AList" "HOL-Library.Sublist"
begin

section \<open>PushToFolders: paths and the extension allow-list\<close>

text \<open>
  The program is a single translation unit, \<^verbatim>\<open>src/main.cpp\<close>. It has a Windows branch and
  a portable branch (\<^verbatim>\<open>#ifdef _WIN32 ... #else ... #endif\<close>). This development embeds the
  portable branch: \<^verbatim>\<open>PathString\<close> is \<^verbatim>\<open>std::string\<close>, characters are bytes, directories are
  created by \<^verbatim>\<open>fs::create_directories\<close>, files are moved by \<^verbatim>\<open>fs::rename\<close> and
  \<^verbatim>\<open>normaliseArguments\<close> is the identity.

  A \<^verbatim>\<open>fs::path\<close> is its generic-format string with \<^verbatim>\<open>/\<close> as the only separator. The
  decomposition functions below follow the C++17 rules for \<^verbatim>\<open>filename\<close>,
  \<^verbatim>\<open>extension\<close>, \<^verbatim>\<open>stem\<close>, \<^verbatim>\<open>parent_path\<close> and \<^verbatim>\<open>operator/\<close>.
\<close>

type_synonym path = string

definition sep :: char where
  "sep = CHR ''/''"

definition dot :: char where
  "dot = CHR ''.''"

text \<open>\<^verbatim>\<open>path::filename()\<close>: what follows the last separator (empty after a trailing one).\<close>

definition filename :: "path \<Rightarrow> string" where
  "filename p = rev (takeWhile (\<lambda>c. c \<noteq> sep) (rev p))"

text \<open>
  \<^verbatim>\<open>path::extension()\<close>: empty for the names \<^verbatim>\<open>.\<close> and \<^verbatim>\<open>..\<close>, for a name without a period
  and for a name whose only period is its first character; otherwise the substring that
  starts at the rightmost period.
\<close>

definition extension :: "path \<Rightarrow> string" where
  "extension p =
     (let f = filename p;
          e = rev (takeWhile (\<lambda>c. c \<noteq> dot) (rev f))
      in if f = [dot] \<or> f = [dot, dot] then []
         else if dot \<notin> set f then []
         else if Suc (length e) = length f then []
         else dot # e)"

text \<open>\<^verbatim>\<open>path::stem()\<close>: the file name without its extension.\<close>

definition stem :: "path \<Rightarrow> string" where
  "stem p = (let f = filename p in take (length f - length (extension p)) f)"

text \<open>
  \<^verbatim>\<open>path::parent_path()\<close>: the path without its last element and the separators before it;
  a path made of separators only (or empty) is its own parent, and the parent of a name
  directly under the root is the root \<^verbatim>\<open>/\<close>.
\<close>

definition parent_path :: "path \<Rightarrow> path" where
  "parent_path p =
     (let d = rev (dropWhile (\<lambda>c. c \<noteq> sep) (rev p));
          t = rev (dropWhile (\<lambda>c. c = sep) (rev d))
      in if t \<noteq> [] then t else if d = p then p else take 1 d)"

text \<open>
  \<^verbatim>\<open>operator/\<close>: an absolute right operand replaces the left one; otherwise a separator is
  inserted unless the left operand is empty or already ends in one.
\<close>

definition path_append :: "path \<Rightarrow> path \<Rightarrow> path" where
  "path_append p q =
     (case q of
        c # _ \<Rightarrow>
          if c = sep then q
          else if p = [] \<or> last p = sep then p @ q
          else p @ [sep] @ q
      | [] \<Rightarrow> if p = [] \<or> last p = sep then p else p @ [sep])"

subsection \<open>Classifier\<close>

text \<open>
  \<^verbatim>\<open>std::tolower\<close> on an \<^verbatim>\<open>unsigned char\<close>. The program never calls \<^verbatim>\<open>setlocale\<close>, so the
  locale is the C locale: the letters \<^verbatim>\<open>A\<close> to \<^verbatim>\<open>Z\<close> (65 to 90) are moved by 32, every
  other byte is left alone.
\<close>

definition tolower :: "char \<Rightarrow> char" where
  "tolower c =
     (let n = (of_char c :: nat)
      in if 65 \<le> n \<and> n \<le> 90 then char_of (n + 32) else c)"

text \<open>\<^verbatim>\<open>toLowerCopy\<close>: \<^verbatim>\<open>std::transform\<close> of the text with \<^verbatim>\<open>tolower\<close>.\<close>

definition toLowerCopy :: "string \<Rightarrow> string" where
  "toLowerCopy text = map tolower text"

definition kExtensions :: "string set" where
  "kExtensions = {''.jpg'', ''.jpeg'', ''.png'', ''.bmp'', ''.webp''}"

text \<open>\<^verbatim>\<open>isImageFile\<close>: \<^verbatim>\<open>kExtensions.count(toLowerCopy(path.extension())) > 0\<close>.\<close>

definition isImageFile :: "path \<Rightarrow> bool" where
  "isImageFile p = (toLowerCopy (extension p) \<in> kExtensions)"

section \<open>The file system, the environment and the program state\<close>

text \<open>
  The program works on the file system through \<^verbatim>\<open>std::filesystem\<close> and on two console
  streams. A file system is an association list from paths to nodes: the entries of all
  directories, looked up by the spelling of their paths. A regular file carries its
  contents. A symbolic link that resolves is the node it resolves to, since every status
  query of the program follows links. A link that does not resolve is an entry of its own
  kind: \<open>DanglingLink\<close> when its target is missing (the status query reports that nothing
  is there), \<open>LinkLoop\<close> when the resolution itself fails (the status query reports an
  error, \<^verbatim>\<open>ELOOP\<close>).
\<close>

datatype node = RegularFile string | Directory | Special | DanglingLink | LinkLoop

type_synonym filesystem = "(path \<times> node) list"

text \<open>
  \<^verbatim>\<open>fs::exists(p, ec)\<close>, \<^verbatim>\<open>fs::is_directory(p, ec)\<close> and \<^verbatim>\<open>fs::is_regular_file(p, ec)\<close>: the
  overloads with an error code, which answer false when the status cannot be read.
\<close>

definition fs_exists :: "filesystem \<Rightarrow> path \<Rightarrow> bool" where
  "fs_exists fs p =
     (case map_of fs p of
        None \<Rightarrow> False
      | Some DanglingLink \<Rightarrow> False
      | Some LinkLoop \<Rightarrow> False
      | Some _ \<Rightarrow> True)"

definition fs_is_directory :: "filesystem \<Rightarrow> path \<Rightarrow> bool" where
  "fs_is_directory fs p = (case map_of fs p of Some Directory \<Rightarrow> True | _ \<Rightarrow> False)"

definition fs_is_regular_file :: "filesystem \<Rightarrow> path \<Rightarrow> bool" where
  "fs_is_regular_file fs p = (case map_of fs p of Some (RegularFile _) \<Rightarrow> True | _ \<Rightarrow> False)"

text \<open>
  An exception that nothing in the program catches: the members of \<^verbatim>\<open>std::filesystem\<close>
  without an error code report a failure by throwing \<^verbatim>\<open>fs::filesystem_error\<close>.
\<close>

datatype error = filesystem_error

text \<open>
  \<^verbatim>\<open>directory_entry::is_regular_file()\<close>, the overload without an error code: it throws
  when the status of the entry cannot be read.
\<close>

definition entry_is_regular_file :: "filesystem \<Rightarrow> path \<Rightarrow> error + bool" where
  "entry_is_regular_file fs p =
     (case map_of fs p of
        Some LinkLoop \<Rightarrow> Inl filesystem_error
      | _ \<Rightarrow> Inr (fs_is_regular_file fs p))"

text \<open>
  What the program cannot decide is a parameter of a run: the temporary directory the
  operating system reports (\<open>None\<close> when \<^verbatim>\<open>fs::temp_directory_path\<close> sets its error code),
  the local time as \<^verbatim>\<open>timestampForLog\<close> formats it, and the operating-system failures:
  \<^item> \<open>mkdirError p\<close>: creating the directory \<open>p\<close> fails with this message;
  \<^item> \<open>renameError old new\<close>: renaming \<open>old\<close> to \<open>new\<close> fails with this message;
  \<^item> \<open>openError p\<close>: the file \<open>p\<close> cannot be opened for reading;
  \<^item> \<open>writeError p\<close>: the file \<open>p\<close> cannot be opened for writing;
  \<^item> \<open>scanError d\<close>: enumerating the directory \<open>d\<close> fails with a message; at \<open>0\<close> the
    iterator cannot be constructed, at \<open>Suc k\<close> the increment after \<open>k + 1\<close> delivered
    entries fails.
\<close>

record env =
  tempDirectory :: "path option"
  clock :: string
  mkdirError :: "path \<Rightarrow> string option"
  renameError :: "path \<Rightarrow> path \<Rightarrow> string option"
  openError :: "path \<Rightarrow> bool"
  writeError :: "path \<Rightarrow> bool"
  scanError :: "path \<Rightarrow> (nat \<times> string) option"

text \<open>
  The \<^verbatim>\<open>Logger\<close> object: its path, whether its \<^verbatim>\<open>std::ofstream\<close> is good, and what has been
  written to the stream and is still in its buffer. The stream is never flushed by the
  program (lines end in \<^verbatim>\<open>"\n"\<close>, not \<^verbatim>\<open>std::endl\<close>), so the buffer reaches the file when
  the stream is destroyed.
\<close>

record logger =
  logFilePath :: path
  stream_good :: bool
  stream_buffer :: string

text \<open>
  The state of a run. The field \<open>logger\<close> is the \<^verbatim>\<open>Logger\<close> of the running invocation; the
  constructor overwrites it, so its value between invocations is never read.
\<close>

record state =
  files :: filesystem
  logger :: logger
  console_out :: string
  console_err :: string

definition nl :: string where
  "nl = [CHR 0x0A]"

definition quote :: string where
  "quote = [CHR 0x27]"

subsection \<open>Operating-system calls\<close>

text \<open>
  \<^verbatim>\<open>fs::create_directory\<close> for one path: a new directory where there is no entry, no
  change where a directory is, an error where another entry is (a link that does not
  resolve is such an entry).
\<close>

definition fs_create_directory :: "env \<Rightarrow> path \<Rightarrow> filesystem \<Rightarrow> string option \<times> filesystem" where
  "fs_create_directory env p fs =
     (case mkdirError env p of
        Some m \<Rightarrow> (Some m, fs)
      | None \<Rightarrow>
          (case map_of fs p of
             None \<Rightarrow> (None, AList.update p Directory fs)
           | Some Directory \<Rightarrow> (None, fs)
           | Some _ \<Rightarrow> (Some ''File exists'', fs)))"

lemma rev_dropWhile_prefix: "xs = rev (dropWhile P (rev xs)) @ rev (takeWhile P (rev xs))"
proof -
  have "rev (takeWhile P (rev xs) @ dropWhile P (rev xs)) = xs"
    by (simp only: takeWhile_dropWhile_id rev_rev_ident)
  then show ?thesis
    by (simp only: rev_append)
qed

lemma prefix_chain: "p = d @ a \<Longrightarrow> d = t @ b \<Longrightarrow> \<exists>s. p = t @ s"
  by simp

lemma parent_path_prefix: "\<exists>s. p = parent_path p @ s"
proof -
  let ?d = "rev (dropWhile (\<lambda>c. c \<noteq> sep) (rev p))"
  let ?t = "rev (dropWhile (\<lambda>c. c = sep) (rev ?d))"
  have pd: "p = ?d @ rev (takeWhile (\<lambda>c. c \<noteq> sep) (rev p))"
    by (rule rev_dropWhile_prefix)
  have dt: "?d = ?t @ rev (takeWhile (\<lambda>c. c = sep) (rev ?d))"
    by (rule rev_dropWhile_prefix)
  show ?thesis
  proof (cases "?t \<noteq> []")
    case True
    then have eq: "parent_path p = ?t" unfolding parent_path_def Let_def by (rule if_P)
    show ?thesis unfolding eq by (rule prefix_chain [OF pd dt])
  next
    case False
    then have e1: "parent_path p = (if ?d = p then p else take 1 ?d)"
      unfolding parent_path_def Let_def by (rule if_not_P)
    show ?thesis
    proof (cases "?d = p")
      case True
      then have "(if ?d = p then p else take 1 ?d) = p" by (rule if_P)
      with e1 have eq: "parent_path p = p" by (rule trans)
      have "p = p @ []" by (simp only: append_Nil2)
      then show ?thesis unfolding eq by (rule exI)
    next
      case False
      then have "(if ?d = p then p else take 1 ?d) = take 1 ?d" by (rule if_not_P)
      with e1 have eq: "parent_path p = take 1 ?d" by (rule trans)
      have d1: "?d = take 1 ?d @ drop 1 ?d" by (simp only: append_take_drop_id)
      show ?thesis unfolding eq by (rule prefix_chain [OF pd d1])
    qed
  qed
qed

lemma parent_path_shorter: "parent_path p \<noteq> p \<Longrightarrow> length (parent_path p) < length p"
proof -
  assume ne: "parent_path p \<noteq> p"
  obtain s where s: "p = parent_path p @ s" using parent_path_prefix by blast
  have "s \<noteq> []"
  proof
    assume "s = []"
    with s have "p = parent_path p" by (simp only: append_Nil2)
    then have "parent_path p = p" by (rule sym)
    with ne show False by (rule notE)
  qed
  then have "length (parent_path p) < length (parent_path p @ s)" by simp
  also have "parent_path p @ s = p" using s by (rule sym)
  finally show ?thesis .
qed

text \<open>
  \<^verbatim>\<open>fs::create_directories(p, ec)\<close>: creates every missing element of \<open>p\<close>, the ancestors
  first. An existing directory is a success; an entry of another kind, or one whose status
  cannot be read, is an error.
  The first component of the result is the error code's message, \<open>None\<close> when no error is
  set.
\<close>

function fs_create_directories :: "env \<Rightarrow> path \<Rightarrow> filesystem \<Rightarrow> string option \<times> filesystem" where
  "fs_create_directories env p fs =
     (if p = [] then (Some ''Invalid argument'', fs)
      else if map_of fs p = Some LinkLoop then
        (Some ''Too many levels of symbolic links'', fs)
      else if fs_exists fs p then
        (if fs_is_directory fs p then (None, fs) else (Some ''Not a directory'', fs))
      else if parent_path p = p \<or> parent_path p = [] then fs_create_directory env p fs
      else
        (case fs_create_directories env (parent_path p) fs of
           (Some m, fs') \<Rightarrow> (Some m, fs')
         | (None, fs') \<Rightarrow> fs_create_directory env p fs'))"
  by pat_completeness auto
termination
  by (relation "measure (\<lambda>(env, p, fs). length p)") (simp_all add: parent_path_shorter)

declare fs_create_directories.simps [simp del]

text \<open>
  \<^verbatim>\<open>fs::rename(old, new, ec)\<close>: the node moves from \<open>old\<close> to \<open>new\<close>, unless the operating
  system refuses; an entry at \<open>new\<close> is replaced.
\<close>

definition fs_rename :: "env \<Rightarrow> path \<Rightarrow> path \<Rightarrow> filesystem \<Rightarrow> string option \<times> filesystem" where
  "fs_rename env old new fs =
     (case renameError env old new of
        Some m \<Rightarrow> (Some m, fs)
      | None \<Rightarrow>
          (case map_of fs old of
             None \<Rightarrow> (Some ''No such file or directory'', fs)
           | Some n \<Rightarrow> (None, AList.update new n (AList.delete old fs))))"

text \<open>
  \<^verbatim>\<open>std::ofstream(path, std::ios::app)\<close> and \<^verbatim>\<open>std::ofstream(path, std::ios::trunc)\<close>: both
  create the file when it is absent and its directory is there (a path without a parent
  lies in the working directory); the second empties the file. An entry that is not a
  regular file does not open as a stream: the target of a link is not part of the model.
\<close>

definition open_append :: "env \<Rightarrow> path \<Rightarrow> filesystem \<Rightarrow> bool \<times> filesystem" where
  "open_append env p fs =
     (if writeError env p then (False, fs)
      else
        (case map_of fs p of
           None \<Rightarrow>
             if parent_path p = [] \<or> fs_is_directory fs (parent_path p)
             then (True, AList.update p (RegularFile []) fs) else (False, fs)
         | Some (RegularFile c) \<Rightarrow> (True, fs)
         | Some _ \<Rightarrow> (False, fs)))"

definition open_trunc :: "env \<Rightarrow> path \<Rightarrow> filesystem \<Rightarrow> bool \<times> filesystem" where
  "open_trunc env p fs =
     (if writeError env p then (False, fs)
      else
        (case map_of fs p of
           None \<Rightarrow>
             if parent_path p = [] \<or> fs_is_directory fs (parent_path p)
             then (True, AList.update p (RegularFile []) fs) else (False, fs)
         | Some (RegularFile c) \<Rightarrow> (True, AList.update p (RegularFile []) fs)
         | Some _ \<Rightarrow> (False, fs)))"

section \<open>Logger\<close>

text \<open>
  \<^verbatim>\<open>detectLogFilePath\<close>, portable branch: \<^verbatim>\<open>PushToFolders.log\<close> in the temporary directory, or
  in the working directory when the temporary directory is not known.
\<close>

definition detectLogFilePath :: "env \<Rightarrow> path" where
  "detectLogFilePath env =
     (case tempDirectory env of
        None \<Rightarrow> ''PushToFolders.log''
      | Some fallback \<Rightarrow> path_append fallback ''PushToFolders.log'')"

text \<open>
  The constructor \<^verbatim>\<open>Logger::Logger\<close>: opens the file for appending; warns on the error
  console when the stream is not good, writes the run-start marker to the stream
  otherwise.
\<close>

definition Logger :: "env \<Rightarrow> state \<Rightarrow> state" where
  "Logger env s =
     (let p = detectLogFilePath env in
      case open_append env p (files s) of
        (False, fs') \<Rightarrow>
          s\<lparr>files := fs',
            logger := \<lparr>logFilePath = p, stream_good = False, stream_buffer = []\<rparr>,
            console_err := console_err s @ ''Warning: Unable to open log file at '' @ p @ nl\<rparr>
      | (True, fs') \<Rightarrow>
          s\<lparr>files := fs',
            logger := \<lparr>logFilePath = p, stream_good = True,
                        stream_buffer = ''--- Run started at '' @ clock env @ '' ---'' @ nl\<rparr>\<rparr>)"

text \<open>
  The destructor of the \<^verbatim>\<open>Logger\<close> (of its \<^verbatim>\<open>std::ofstream\<close>): what is in the buffer is
  appended to the file, and the stream is closed.
\<close>

definition close_Logger :: "state \<Rightarrow> state" where
  "close_Logger s =
     (let l = logger s in
      if stream_good l then
        s\<lparr>files :=
            (case map_of (files s) (logFilePath l) of
               Some (RegularFile c) \<Rightarrow>
                 AList.update (logFilePath l) (RegularFile (c @ stream_buffer l)) (files s)
             | _ \<Rightarrow> files s),
          logger := l\<lparr>stream_good := False, stream_buffer := []\<rparr>\<rparr>
      else s)"

text \<open>\<^verbatim>\<open>Logger::logError\<close> and \<^verbatim>\<open>Logger::logInfo\<close>: one line each, only on a good stream.\<close>

definition logError :: "env \<Rightarrow> path \<Rightarrow> string \<Rightarrow> logger \<Rightarrow> logger" where
  "logError env target message l =
     (if stream_good l then
        l\<lparr>stream_buffer :=
            stream_buffer l @ ''['' @ clock env @ ''] ERROR: '' @ message @
            (if target \<noteq> [] then '' | Target: '' @ target else []) @ nl\<rparr>
      else l)"

definition logInfo :: "env \<Rightarrow> string \<Rightarrow> logger \<Rightarrow> logger" where
  "logInfo env message l =
     (if stream_good l then
        l\<lparr>stream_buffer := stream_buffer l @ ''['' @ clock env @ ''] INFO: '' @ message @ nl\<rparr>
      else l)"

section \<open>Mover\<close>

text \<open>\<^verbatim>\<open>ensureDirectory\<close>, portable branch.\<close>

definition ensureDirectory :: "env \<Rightarrow> path \<Rightarrow> state \<Rightarrow> bool \<times> state" where
  "ensureDirectory env dir s =
     (if fs_exists (files s) dir then
        (if \<not> fs_is_directory (files s) dir then
           (False,
            s\<lparr>logger :=
                logError env dir ''A non-directory with the desired folder name already exists.''
                  (logger s),
              console_err :=
                console_err s @ ''Cannot create folder '' @ quote @ dir @ quote @
                '' because a file exists with that name.'' @ nl\<rparr>)
         else (True, s))
      else
        (case fs_create_directories env dir (files s) of
           (Some message, fs') \<Rightarrow>
             (False,
              s\<lparr>files := fs',
                logger := logError env dir (''Failed to create folder: '' @ message) (logger s),
                console_err :=
                  console_err s @ ''Failed to create folder '' @ quote @ dir @ quote @ '': '' @
                  message @ nl\<rparr>)
         | (None, fs') \<Rightarrow> (True, s\<lparr>files := fs'\<rparr>)))"

text \<open>\<^verbatim>\<open>moveFileToFolder\<close>, portable branch.\<close>

definition moveFileToFolder :: "env \<Rightarrow> path \<Rightarrow> state \<Rightarrow> bool \<times> state" where
  "moveFileToFolder env filePath s =
     (if \<not> fs_exists (files s) filePath then
        (False,
         s\<lparr>logger := logError env filePath ''File does not exist.'' (logger s),
           console_err := console_err s @ ''File not found: '' @ filePath @ nl\<rparr>)
      else if \<not> fs_is_regular_file (files s) filePath then
        (False,
         s\<lparr>logger := logError env filePath ''Path is not a regular file.'' (logger s),
           console_err := console_err s @ ''Not a file: '' @ filePath @ nl\<rparr>)
      else if \<not> isImageFile filePath then
        (False,
         s\<lparr>logger := logInfo env (''Skipping non-image file: '' @ filePath) (logger s)\<rparr>)
      else
        (let destinationFolder = path_append (parent_path filePath) (stem filePath) in
         case ensureDirectory env destinationFolder s of
           (False, s1) \<Rightarrow> (False, s1)
         | (True, s1) \<Rightarrow>
             (let destinationFile = path_append destinationFolder (filename filePath) in
              if fs_exists (files s1) destinationFile then
                (False,
                 s1\<lparr>logger :=
                      logError env destinationFile ''Destination file already exists.'' (logger s1),
                    console_err :=
                      console_err s1 @ ''Destination already exists: '' @ destinationFile @ nl\<rparr>)
              else
                (case fs_rename env filePath destinationFile (files s1) of
                   (Some message, fs') \<Rightarrow>
                     (False,
                      s1\<lparr>files := fs',
                         logger :=
                           logError env destinationFile (''Failed to move file: '' @ message)
                             (logger s1),
                         console_err :=
                           console_err s1 @ ''Failed to move '' @ quote @ filePath @ quote @
                           '': '' @ message @ nl\<rparr>)
                 | (None, fs') \<Rightarrow>
                     (True,
                      s1\<lparr>files := fs',
                         logger :=
                           logInfo env (''Moved '' @ filePath @ '' to '' @ destinationFolder)
                             (logger s1),
                         console_out :=
                           console_out s1 @ ''Moved '' @ quote @ filename filePath @ quote @
                           '' into '' @ quote @ filename destinationFolder @ quote @ nl\<rparr>)))))"

section \<open>Scanner\<close>

text \<open>
  What a \<^verbatim>\<open>fs::directory_iterator\<close> on \<open>d\<close> delivers: the paths \<open>d / name\<close> of the nodes
  directly in \<open>d\<close>, each once.
\<close>

definition directory_entries :: "filesystem \<Rightarrow> path \<Rightarrow> path list" where
  "directory_entries fs d =
     filter (\<lambda>p. filename p \<noteq> [] \<and> p = path_append d (filename p)) (remdups (map fst fs))"

text \<open>
  \<^verbatim>\<open>fs::directory_iterator(directoryPath, ec)\<close>: the error code, the entries to deliver and
  the number of increments that succeed before the failing one (\<open>None\<close>: none fails). On
  an error the constructor sets \<open>ec\<close> and returns the end iterator.
\<close>

definition directory_iterator ::
  "env \<Rightarrow> filesystem \<Rightarrow> path \<Rightarrow> string option \<times> path list \<times> nat option" where
  "directory_iterator env fs d =
     (case scanError env d of
        None \<Rightarrow> (None, directory_entries fs d, None)
      | Some (0, message) \<Rightarrow> (Some message, [], None)
      | Some (Suc k, message) \<Rightarrow> (None, directory_entries fs d, Some k))"

text \<open>
  How the loop of \<^verbatim>\<open>processDirectory\<close> ends: it runs to its end, it returns from the function,
  or an exception leaves it. Nothing catches the exception: \<^verbatim>\<open>operator++\<close> of the iterator,
  which the range-based \<^verbatim>\<open>for\<close> calls, and \<^verbatim>\<open>entry.is_regular_file()\<close> both report a failure
  by throwing \<^verbatim>\<open>fs::filesystem_error\<close>.
\<close>

datatype loop_result = Completed bool | Returned bool | Raised error

text \<open>
  The body of the loop of \<^verbatim>\<open>processDirectory\<close> after its check of \<open>ec\<close>: the new value of
  \<^verbatim>\<open>anyProcessed\<close> and the new state, or the exception thrown by \<^verbatim>\<open>entry.is_regular_file()\<close>.
\<close>

definition processDirectory_entry ::
  "env \<Rightarrow> path \<Rightarrow> bool \<Rightarrow> state \<Rightarrow> error + bool \<times> state" where
  "processDirectory_entry env entry anyProcessed s =
     (case entry_is_regular_file (files s) entry of
        Inl e \<Rightarrow> Inl e
      | Inr False \<Rightarrow> Inr (anyProcessed, s)
      | Inr True \<Rightarrow>
          if isImageFile entry then
            (case moveFileToFolder env entry s of
               (True, s') \<Rightarrow> Inr (True, s')
             | (False, s') \<Rightarrow> Inr (anyProcessed, s'))
          else Inr (anyProcessed, s))"

text \<open>
  The loop of \<^verbatim>\<open>processDirectory\<close>: \<open>ec\<close> is the variable the constructor of the iterator
  wrote, the list holds the entries still to deliver, \<open>k\<close> counts the increments left before
  the failing one.
\<close>

fun processDirectory_loop ::
  "env \<Rightarrow> path \<Rightarrow> string option \<Rightarrow> path list \<Rightarrow> nat option \<Rightarrow> bool \<Rightarrow> state \<Rightarrow>
   loop_result \<times> state" where
  "processDirectory_loop env directoryPath ec [] k anyProcessed s = (Completed anyProcessed, s)"
| "processDirectory_loop env directoryPath ec (entry # rest) k anyProcessed s =
     (case ec of
        Some message \<Rightarrow>
          (Returned False,
           s\<lparr>logger :=
               logError env directoryPath (''Failed to scan directory: '' @ message) (logger s),
             console_err :=
               console_err s @ ''Failed to scan directory '' @ quote @ directoryPath @ quote @
               '': '' @ message @ nl\<rparr>)
      | None \<Rightarrow>
          (case processDirectory_entry env entry anyProcessed s of
             Inl e \<Rightarrow> (Raised e, s)
           | Inr (anyProcessed', s') \<Rightarrow>
               (case k of
                  None \<Rightarrow> processDirectory_loop env directoryPath ec rest None anyProcessed' s'
                | Some 0 \<Rightarrow> (Raised filesystem_error, s')
                | Some (Suc j) \<Rightarrow>
                    processDirectory_loop env directoryPath ec rest (Some j) anyProcessed' s')))"

definition processDirectory :: "env \<Rightarrow> path \<Rightarrow> state \<Rightarrow> (error + bool) \<times> state" where
  "processDirectory env directoryPath s =
     (if \<not> fs_exists (files s) directoryPath \<or> \<not> fs_is_directory (files s) directoryPath then
        (Inr False,
         s\<lparr>logger :=
             logError env directoryPath ''The supplied path is not a directory.'' (logger s),
           console_err := console_err s @ ''The path is not a folder: '' @ directoryPath @ nl\<rparr>)
      else
        (case directory_iterator env (files s) directoryPath of
           (ec, entries, k) \<Rightarrow>
             (case processDirectory_loop env directoryPath ec entries k False s of
                (Raised e, s') \<Rightarrow> (Inl e, s')
              | (Returned b, s') \<Rightarrow> (Inr b, s')
              | (Completed anyProcessed, s') \<Rightarrow>
                  (Inr anyProcessed,
                   if \<not> anyProcessed then
                     s'\<lparr>console_out :=
                          console_out s' @ ''No image files found in '' @ directoryPath @ nl\<rparr>
                   else s'))))"

text \<open>\<^verbatim>\<open>processFiles\<close>: its loop, then the message when nothing was moved.\<close>

fun processFiles_loop :: "env \<Rightarrow> path list \<Rightarrow> bool \<Rightarrow> state \<Rightarrow> bool \<times> state" where
  "processFiles_loop env [] anyProcessed s = (anyProcessed, s)"
| "processFiles_loop env (file # rest) anyProcessed s =
     (case moveFileToFolder env file s of
        (True, s') \<Rightarrow> processFiles_loop env rest True s'
      | (False, s') \<Rightarrow> processFiles_loop env rest anyProcessed s')"

definition processFiles :: "env \<Rightarrow> path list \<Rightarrow> state \<Rightarrow> bool \<times> state" where
  "processFiles env filePaths s =
     (case processFiles_loop env filePaths False s of
        (anyProcessed, s') \<Rightarrow>
          (anyProcessed,
           if \<not> anyProcessed then
             s'\<lparr>console_out := console_out s' @ ''No image files were processed.'' @ nl\<rparr>
           else s'))"

section \<open>Dispatcher\<close>

text \<open>
  \<^verbatim>\<open>readFileContents\<close>: the contents of the file, or nothing when the stream cannot be
  opened. The model covers a path that holds a regular file or nothing; for an entry of
  another kind it answers that the stream does not open (what \<^verbatim>\<open>std::ifstream\<close> does on a
  directory depends on the library and is not modelled). \<^verbatim>\<open>clearLogFile\<close>: opens the file
  with \<^verbatim>\<open>std::ios::trunc\<close> and reports whether the stream is good.
\<close>

definition readFileContents :: "env \<Rightarrow> path \<Rightarrow> filesystem \<Rightarrow> string option" where
  "readFileContents env p fs =
     (if openError env p then None
      else (case map_of fs p of Some (RegularFile c) \<Rightarrow> Some c | _ \<Rightarrow> None))"

definition clearLogFile :: "env \<Rightarrow> path \<Rightarrow> filesystem \<Rightarrow> bool \<times> filesystem" where
  "clearLogFile env p fs = open_trunc env p fs"

definition dquote :: string where
  "dquote = [CHR 0x22]"

definition printUsage :: "path \<Rightarrow> state \<Rightarrow> state" where
  "printUsage logPath s =
     s\<lparr>console_out :=
         console_out s @
         ''PushToFolders - Organise images into same-named folders'' @ nl @ nl @
         ''Usage:'' @ nl @
         ''  PushToFolders '' @ dquote @ ''C:/path/to/folder'' @ dquote @
         ''  (command line folder mode)'' @ nl @
         ''  PushToFolders <image1> <image2> ...     (Explorer selection mode)'' @ nl @
         ''  PushToFolders --show-log               (display error log)'' @ nl @
         ''  PushToFolders --clear-log              (clear error log)'' @ nl @ nl @
         ''Log file: '' @ logPath @ nl\<rparr>"

definition normaliseArguments :: "string list \<Rightarrow> string list" where
  "normaliseArguments args = args"

definition showLogLong :: string where
  "showLogLong = ''--show-log''"

definition showLogShort :: string where
  "showLogShort = ''/showlog''"

definition clearLogLong :: string where
  "clearLogLong = ''--clear-log''"

definition clearLogShort :: string where
  "clearLogShort = ''/clearlog''"

text \<open>
  \<^verbatim>\<open>runApplication\<close>. The result is the exit status, or the exception that left the
  function. The \<^verbatim>\<open>Logger\<close> is a local object: it is destroyed at every \<^verbatim>\<open>return\<close>, and not
  when an exception ends the process.
\<close>

definition runApplication :: "env \<Rightarrow> string list \<Rightarrow> state \<Rightarrow> (error + int) \<times> state" where
  "runApplication env arguments s0 =
     (let args = normaliseArguments arguments;
          s = Logger env s0;
          logPath = logFilePath (logger s)
      in
      if args = [] then (Inr 1, close_Logger (printUsage logPath s))
      else if length args = 1 \<and> (args ! 0 = showLogLong \<or> args ! 0 = showLogShort) then
        (case readFileContents env logPath (files s) of
           None \<Rightarrow>
             (Inr 1,
              close_Logger
                (s\<lparr>console_err := console_err s @ ''No log file found at '' @ logPath @ nl\<rparr>))
         | Some contents \<Rightarrow>
             (Inr 0,
              close_Logger
                (s\<lparr>console_out := console_out s @ ''Log file: '' @ logPath @ nl @ contents\<rparr>)))
      else if length args = 1 \<and> (args ! 0 = clearLogLong \<or> args ! 0 = clearLogShort) then
        (case clearLogFile env logPath (files s) of
           (True, fs') \<Rightarrow>
             (Inr 0,
              close_Logger
                (s\<lparr>files := fs',
                   console_out := console_out s @ ''Log file cleared: '' @ logPath @ nl\<rparr>))
         | (False, fs') \<Rightarrow>
             (Inr 1,
              close_Logger
                (s\<lparr>files := fs',
                   console_err :=
                     console_err s @ ''Unable to clear log file at '' @ logPath @ nl\<rparr>)))
      else if length args = 1 \<and> fs_exists (files s) (args ! 0) \<and>
              fs_is_directory (files s) (args ! 0) then
        (case processDirectory env (args ! 0) s of
           (Inl e, s') \<Rightarrow> (Inl e, s')
         | (Inr success, s') \<Rightarrow>
             (Inr (if success then 0 else 1),
              close_Logger
                (s'\<lparr>console_out :=
                     console_out s' @ ''Finished processing folder.'' @ nl @
                     ''Check the log for any errors: '' @ logPath @ nl\<rparr>)))
      else
        (case processFiles env args s of
           (success, s') \<Rightarrow>
             (Inr (if success then 0 else 1),
              close_Logger
                (s'\<lparr>console_out :=
                     console_out s' @
                     ''Finished processing files. Check the log for any errors: '' @ logPath @
                     nl\<rparr>))))"

section \<open>Reference definitions\<close>

text \<open>
  The local variables \<^verbatim>\<open>destinationFolder\<close> and \<^verbatim>\<open>destinationFile\<close> of
  \<^verbatim>\<open>moveFileToFolder\<close>, as functions of the file path.
\<close>

definition destinationFolder :: "path \<Rightarrow> path" where
  "destinationFolder filePath = path_append (parent_path filePath) (stem filePath)"

definition destinationFile :: "path \<Rightarrow> path" where
  "destinationFile filePath = path_append (destinationFolder filePath) (filename filePath)"

text \<open>
  Reference definitions for a batch, after the words of the specification: every item is
  handled once, in the order given, whatever happened to the items before it, and its
  outcome is whether it was moved. For a list of files every item is handed to the mover;
  in a folder scan the entries that are regular files with a supported extension are.
\<close>

fun move_each :: "env \<Rightarrow> path list \<Rightarrow> state \<Rightarrow> bool list \<times> state" where
  "move_each env [] s = ([], s)"
| "move_each env (item # rest) s =
     (case moveFileToFolder env item s of
        (moved, s') \<Rightarrow>
          (case move_each env rest s' of
             (outcomes, s'') \<Rightarrow> (moved # outcomes, s'')))"

fun scan_each :: "env \<Rightarrow> path list \<Rightarrow> state \<Rightarrow> bool list \<times> state" where
  "scan_each env [] s = ([], s)"
| "scan_each env (item # rest) s =
     (case (if fs_is_regular_file (files s) item \<and> isImageFile item
            then moveFileToFolder env item s else (False, s)) of
        (moved, s') \<Rightarrow>
          (case scan_each env rest s' of
             (outcomes, s'') \<Rightarrow> (moved # outcomes, s'')))"

text \<open>
  A path that holds a symbolic link which does not resolve: an entry of its directory for
  which \<^verbatim>\<open>fs::exists\<close> answers false.
\<close>

definition unresolved_link :: "filesystem \<Rightarrow> path \<Rightarrow> bool" where
  "unresolved_link fs q \<longleftrightarrow> map_of fs q = Some DanglingLink \<or> map_of fs q = Some LinkLoop"

text \<open>
  Equality of strings up to the case of the letters \<^verbatim>\<open>A\<close> to \<^verbatim>\<open>Z\<close>, by the table of the
  alphabet: two characters are the same letter when they are equal or when they stand at
  the same position of the upper-case and of the lower-case alphabet.
\<close>

definition upper_letters :: string where
  "upper_letters = ''ABCDEFGHIJKLMNOPQRSTUVWXYZ''"

definition lower_letters :: string where
  "lower_letters = ''abcdefghijklmnopqrstuvwxyz''"

definition same_letter :: "char \<Rightarrow> char \<Rightarrow> bool" where
  "same_letter c d \<longleftrightarrow>
     c = d \<or> (c, d) \<in> set (zip upper_letters lower_letters) \<or>
     (d, c) \<in> set (zip upper_letters lower_letters)"

definition same_ignoring_case :: "string \<Rightarrow> string \<Rightarrow> bool" where
  "same_ignoring_case x y = list_all2 same_letter x y"

text \<open>The four arguments that name a log command.\<close>

definition is_log_token :: "string \<Rightarrow> bool" where
  "is_log_token a \<longleftrightarrow>
     a = showLogLong \<or> a = showLogShort \<or> a = clearLogLong \<or> a = clearLogShort"

section \<open>Example worlds\<close>

text \<open>
  An environment without operating-system failures; the same environment five seconds
  later; an environment in which the operating system refuses every rename; and two
  environments in which the enumeration of a directory fails: after the first entry, and
  when the iterator is constructed.
\<close>

definition env0 :: env where
  "env0 =
     \<lparr>tempDirectory = Some ''/tmp'', clock = ''2024-05-01 10:00:00'',
      mkdirError = (\<lambda>p. None), renameError = (\<lambda>old new. None),
      openError = (\<lambda>p. False), writeError = (\<lambda>p. False), scanError = (\<lambda>d. None)\<rparr>"

definition env_later :: env where
  "env_later = env0\<lparr>clock := ''2024-05-01 10:00:05''\<rparr>"

definition env_rename_denied :: env where
  "env_rename_denied = env0\<lparr>renameError := (\<lambda>old new. Some ''Permission denied'')\<rparr>"

definition env_scan_fails_midway :: env where
  "env_scan_fails_midway = env0\<lparr>scanError := (\<lambda>d. Some (1, ''Input/output error''))\<rparr>"

definition env_scan_fails_at_open :: env where
  "env_scan_fails_at_open = env0\<lparr>scanError := (\<lambda>d. Some (0, ''Permission denied''))\<rparr>"

text \<open>
  A small file tree: a picture folder with a picture, a dot-file, a text file and a
  picture whose folder already holds a file of the same name; the log file has contents
  from an earlier run.
\<close>

definition world0 :: state where
  "world0 =
     \<lparr>files =
        [(''/'', Directory), (''/tmp'', Directory), (''/home'', Directory),
         (''/home/pics'', Directory),
         (''/home/pics/photo.png'', RegularFile ''PNG''),
         (''/home/pics/.png'', RegularFile ''dot''),
         (''/home/pics/notes.txt'', RegularFile ''txt''),
         (''/home/pics/cat.jpg'', RegularFile ''new cat''),
         (''/home/pics/cat'', Directory),
         (''/home/pics/cat/cat.jpg'', RegularFile ''old cat''),
         (''/tmp/PushToFolders.log'', RegularFile ''old log'')],
      logger = \<lparr>logFilePath = [], stream_good = False, stream_buffer = []\<rparr>,
      console_out = [], console_err = []\<rparr>"

text \<open>
  The same tree in which the entry \<^verbatim>\<open>cat.jpg\<close> of the folder \<^verbatim>\<open>cat\<close> is a symbolic link whose
  target is missing.
\<close>

definition world_dangling :: state where
  "world_dangling =
     \<lparr>files =
        [(''/'', Directory), (''/tmp'', Directory), (''/home'', Directory),
         (''/home/pics'', Directory),
         (''/home/pics/cat.jpg'', RegularFile ''new cat''),
         (''/home/pics/cat'', Directory),
         (''/home/pics/cat/cat.jpg'', DanglingLink),
         (''/tmp/PushToFolders.log'', RegularFile ''old log'')],
      logger = \<lparr>logFilePath = [], stream_good = False, stream_buffer = []\<rparr>,
      console_out = [], console_err = []\<rparr>"

text \<open>
  A folder of documents whose only entry is a text file; a world that holds nothing but
  the log file, and the state after \<^verbatim>\<open>--clear-log\<close> has run in it; a world in which a
  directory and a file are named like the log tokens; and a folder with two pictures.
\<close>

definition world_docs :: state where
  "world_docs =
     \<lparr>files =
        [(''/'', Directory), (''/tmp'', Directory), (''/home'', Directory),
         (''/home/docs'', Directory),
         (''/home/docs/notes.txt'', RegularFile ''txt'')],
      logger = \<lparr>logFilePath = [], stream_good = False, stream_buffer = []\<rparr>,
      console_out = [], console_err = []\<rparr>"

definition world_log :: state where
  "world_log =
     \<lparr>files = [(''/tmp'', Directory), (''/tmp/PushToFolders.log'', RegularFile ''old log'')],
      logger = \<lparr>logFilePath = [], stream_good = False, stream_buffer = []\<rparr>,
      console_out = [], console_err = []\<rparr>"

definition world_cleared :: state where
  "world_cleared =
     \<lparr>files =
        [(''/tmp'', Directory),
         (''/tmp/PushToFolders.log'',
          RegularFile (''--- Run started at 2024-05-01 10:00:00 ---'' @ nl))],
      logger =
        \<lparr>logFilePath = ''/tmp/PushToFolders.log'', stream_good = False, stream_buffer = []\<rparr>,
      console_out = ''Log file cleared: /tmp/PushToFolders.log'' @ nl, console_err = []\<rparr>"

definition world_tokens :: state where
  "world_tokens =
     \<lparr>files =
        [(''--show-log'', Directory), (''--show-log/pic.png'', RegularFile ''p''),
         (''--clear-log'', RegularFile ''f''), (''/tmp'', Directory),
         (''/tmp/PushToFolders.log'', RegularFile ''old log'')],
      logger = \<lparr>logFilePath = [], stream_good = False, stream_buffer = []\<rparr>,
      console_out = [], console_err = []\<rparr>"

definition world_two_pics :: state where
  "world_two_pics =
     \<lparr>files =
        [(''/tmp'', Directory), (''/pics'', Directory), (''/pics/a.png'', RegularFile ''a''),
         (''/pics/b.png'', RegularFile ''b''),
         (''/tmp/PushToFolders.log'', RegularFile ''old log'')],
      logger = \<lparr>logFilePath = [], stream_good = False, stream_buffer = []\<rparr>,
      console_out = [], console_err = []\<rparr>"

text \<open>
  A folder with two pictures and, between them in the order of enumeration, a symbolic
  link whose status cannot be read (a link that points to itself).
\<close>

definition world_loop :: state where
  "world_loop =
     \<lparr>files =
        [(''/tmp'', Directory), (''/pics'', Directory), (''/pics/a.png'', RegularFile ''a''),
         (''/pics/loop'', LinkLoop), (''/pics/b.png'', RegularFile ''b''),
         (''/tmp/PushToFolders.log'', RegularFile ''old log'')],
      logger = \<lparr>logFilePath = [], stream_good = False, stream_buffer = []\<rparr>,
      console_out = [], console_err = []\<rparr>"

section \<open>Properties\<close>

subsection \<open>Paths and the classifier\<close>

lemma tolower_Char:
  "tolower (Char b0 b1 b2 b3 b4 b5 b6 b7) =
     (if 65 \<le> (of_char (Char b0 b1 b2 b3 b4 b5 b6 b7) :: nat) \<and>
         (of_char (Char b0 b1 b2 b3 b4 b5 b6 b7) :: nat) \<le> 90
      then Char b0 b1 b2 b3 b4 True b6 b7 else Char b0 b1 b2 b3 b4 b5 b6 b7)"
  by (cases b0; cases b1; cases b2; cases b3; cases b4; cases b5; cases b6; cases b7;
      simp add: tolower_def char_of_eq_iff)

lemma extension_dotfile:
  assumes "filename p = dot # rest" and "dot \<notin> set rest"
  shows "extension p = []"
proof -
  have "takeWhile (\<lambda>c. c \<noteq> dot) (rev rest @ [dot]) = rev rest"
  proof -
    have "\<And>x. x \<in> set (rev rest) \<Longrightarrow> x \<noteq> dot" using assms(2) by auto
    then have "takeWhile (\<lambda>c. c \<noteq> dot) (rev rest @ [dot]) =
        rev rest @ takeWhile (\<lambda>c. c \<noteq> dot) [dot]"
      by (rule takeWhile_append2)
    then show ?thesis by simp
  qed
  then show ?thesis
    using assms by (simp add: extension_def Let_def)
qed

lemma not_image_without_extension: "extension p = [] \<Longrightarrow> \<not> isImageFile p"
  by (simp add: isImageFile_def toLowerCopy_def kExtensions_def)

lemma regular_file_exists: "fs_is_regular_file fs p \<Longrightarrow> fs_exists fs p"
  by (auto simp: fs_is_regular_file_def fs_exists_def split: option.splits node.splits)

lemma tolower_same_letter:
  "y \<notin> set upper_letters \<Longrightarrow> tolower c = y \<longleftrightarrow> same_letter c y"
proof -
  assume y: "y \<notin> set upper_letters"
  obtain b0 b1 b2 b3 b4 b5 b6 b7 where c: "c = Char b0 b1 b2 b3 b4 b5 b6 b7"
    by (cases c) blast
  show ?thesis
    using y unfolding c tolower_Char same_letter_def upper_letters_def lower_letters_def
    by (cases b0; cases b1; cases b2; cases b3; cases b4; cases b5; cases b6; cases b7)
      auto
qed

lemma toLowerCopy_same_ignoring_case:
  "set y \<inter> set upper_letters = {} \<Longrightarrow> toLowerCopy x = y \<longleftrightarrow> same_ignoring_case x y"
proof (induction x arbitrary: y)
  case Nil
  show ?case by (auto simp: toLowerCopy_def same_ignoring_case_def)
next
  case (Cons c x)
  show ?case
  proof (cases y)
    case Nil
    then show ?thesis by (simp add: toLowerCopy_def same_ignoring_case_def)
  next
    case (Cons d y')
    with Cons.prems have d: "d \<notin> set upper_letters" and y': "set y' \<inter> set upper_letters = {}"
      by auto
    have "toLowerCopy x = y' \<longleftrightarrow> same_ignoring_case x y'"
      using y' by (rule Cons.IH)
    then show ?thesis
      using tolower_same_letter [OF d, of c] Cons
      by (simp add: toLowerCopy_def same_ignoring_case_def)
  qed
qed

lemma filename_of_name:
  assumes "sep \<notin> set f" and "pre = [] \<or> last pre = sep"
  shows "filename (pre @ f) = f"
proof -
  have a: "\<And>x. x \<in> set (rev f) \<Longrightarrow> x \<noteq> sep" using assms(1) by auto
  have "takeWhile (\<lambda>c. c \<noteq> sep) (rev f @ rev pre) =
      rev f @ takeWhile (\<lambda>c. c \<noteq> sep) (rev pre)"
    using a by (rule takeWhile_append2)
  moreover have "takeWhile (\<lambda>c. c \<noteq> sep) (rev pre) = []"
  proof (cases "pre = []")
    case True
    then show ?thesis by simp
  next
    case False
    with assms(2) have "last pre = sep" by simp
    with False have "hd (rev pre) = sep" by (simp add: hd_rev)
    with False show ?thesis by (cases "rev pre") simp_all
  qed
  ultimately show ?thesis by (simp add: filename_def)
qed

lemma extension_of_name:
  assumes "filename p = name @ dot # e" and "name \<noteq> []" and "\<not> (name = [dot] \<and> e = [])"
    and "dot \<notin> set e"
  shows "extension p = dot # e"
proof -
  have a: "\<And>x. x \<in> set (rev e) \<Longrightarrow> x \<noteq> dot" using assms(4) by auto
  have "takeWhile (\<lambda>c. c \<noteq> dot) (rev e @ dot # rev name) =
      rev e @ takeWhile (\<lambda>c. c \<noteq> dot) (dot # rev name)"
    using a by (rule takeWhile_append2)
  then have t: "rev (takeWhile (\<lambda>c. c \<noteq> dot) (rev (name @ dot # e))) = e"
    by simp
  have n1: "name @ dot # e \<noteq> [dot]" using assms(2) by (cases name) simp_all
  have n2: "name @ dot # e \<noteq> [dot, dot]"
    using assms(2,3) by (cases name) (auto simp: append_eq_Cons_conv)
  have n3: "Suc (length e) \<noteq> length (name @ dot # e)" using assms(2) by simp
  show ?thesis
    unfolding extension_def Let_def assms(1) t using n1 n2 n3 by simp
qed

text \<open>
  Claim C8. The classifier accepts a path exactly when the lower-cased form of its
  extension is one of \<^verbatim>\<open>.jpg\<close>, \<^verbatim>\<open>.jpeg\<close>, \<^verbatim>\<open>.png\<close>, \<^verbatim>\<open>.bmp\<close>, \<^verbatim>\<open>.webp\<close>, and rejects every
  other path. Lower-casing ignores exactly the case of the letters: the classifier accepts
  a path exactly when its extension is one of the five up to the case of its letters, by
  the table of the alphabet. In particular a file name \<open>name.e\<close> (a non-empty name, then a
  period, then text without a period) in any directory is accepted exactly when \<open>e\<close> is
  \<^verbatim>\<open>jpg\<close>, \<^verbatim>\<open>jpeg\<close>, \<^verbatim>\<open>png\<close>, \<^verbatim>\<open>bmp\<close> or \<^verbatim>\<open>webp\<close> in any mixture of upper and lower case.
  \<open>isImageFile\<close> is a function from paths to truth values: it reads and writes no state
  and has no error result.
\<close>

theorem isImageFile_iff:
  "(isImageFile p \<longleftrightarrow>
      toLowerCopy (extension p) \<in> {''.jpg'', ''.jpeg'', ''.png'', ''.bmp'', ''.webp''}) \<and>
   (isImageFile p \<longleftrightarrow>
      same_ignoring_case (extension p) ''.jpg'' \<or> same_ignoring_case (extension p) ''.jpeg'' \<or>
      same_ignoring_case (extension p) ''.png'' \<or> same_ignoring_case (extension p) ''.bmp'' \<or>
      same_ignoring_case (extension p) ''.webp'') \<and>
   (name \<noteq> [] \<and> \<not> (name = [dot] \<and> e = []) \<and> sep \<notin> set name \<and> sep \<notin> set e \<and>
    dot \<notin> set e \<and> (dir = [] \<or> last dir = sep) \<longrightarrow>
      extension (dir @ name @ dot # e) = dot # e \<and>
      (isImageFile (dir @ name @ dot # e) \<longleftrightarrow>
         same_ignoring_case e ''jpg'' \<or> same_ignoring_case e ''jpeg'' \<or>
         same_ignoring_case e ''png'' \<or> same_ignoring_case e ''bmp'' \<or>
         same_ignoring_case e ''webp''))"
proof -
  have one: "isImageFile q \<longleftrightarrow>
      toLowerCopy (extension q) \<in> {''.jpg'', ''.jpeg'', ''.png'', ''.bmp'', ''.webp''}" for q
    by (simp only: isImageFile_def kExtensions_def)
  have low: "set ''.jpg'' \<inter> set upper_letters = {}" "set ''.jpeg'' \<inter> set upper_letters = {}"
    "set ''.png'' \<inter> set upper_letters = {}" "set ''.bmp'' \<inter> set upper_letters = {}"
    "set ''.webp'' \<inter> set upper_letters = {}"
    by (simp_all add: upper_letters_def)
  have two: "isImageFile q \<longleftrightarrow>
      same_ignoring_case (extension q) ''.jpg'' \<or> same_ignoring_case (extension q) ''.jpeg'' \<or>
      same_ignoring_case (extension q) ''.png'' \<or> same_ignoring_case (extension q) ''.bmp'' \<or>
      same_ignoring_case (extension q) ''.webp''" for q
    unfolding one
    using low [THEN toLowerCopy_same_ignoring_case, of "extension q"]
    by (simp only: insert_iff empty_iff simp_thms)
  have three: "extension (dir @ name @ dot # e) = dot # e \<and>
      (isImageFile (dir @ name @ dot # e) \<longleftrightarrow>
         same_ignoring_case e ''jpg'' \<or> same_ignoring_case e ''jpeg'' \<or>
         same_ignoring_case e ''png'' \<or> same_ignoring_case e ''bmp'' \<or>
         same_ignoring_case e ''webp'')"
    if h: "name \<noteq> [] \<and> \<not> (name = [dot] \<and> e = []) \<and> sep \<notin> set name \<and> sep \<notin> set e \<and>
      dot \<notin> set e \<and> (dir = [] \<or> last dir = sep)"
  proof -
    have ds: "dot \<noteq> sep" by (simp add: dot_def sep_def)
    have "sep \<notin> set (name @ dot # e)" using h ds by auto
    moreover have "dir = [] \<or> last dir = sep" using h by simp
    ultimately have f: "filename (dir @ name @ dot # e) = name @ dot # e"
      by (rule filename_of_name)
    have x: "extension (dir @ name @ dot # e) = dot # e"
      using f h by (intro extension_of_name) auto
    have d: "same_ignoring_case (dot # e) (CHR ''.'' # y) = same_ignoring_case e y" for y
      by (simp add: same_ignoring_case_def same_letter_def dot_def)
    show ?thesis
      using two [of "dir @ name @ dot # e"] unfolding x by (simp add: d)
  qed
  show ?thesis using one two three by blast
qed

theorem isImageFile_iff_witness:
  "isImageFile ''/pictures/holiday.JPG'' \<and> isImageFile ''portrait.WebP'' \<and>
   isImageFile ''a.b/scan.Jpeg'' \<and> isImageFile ''/scans/page.PNG'' \<and>
   isImageFile ''/scans/page.JPEG'' \<and> isImageFile ''/scans/page.WEBP'' \<and>
   isImageFile ''/scans/page.bMp'' \<and>
   extension ''/scans/page.WEBP'' = ''.WEBP'' \<and>
   \<not> isImageFile ''/pictures/notes.txt'' \<and> \<not> isImageFile ''/pictures/png'' \<and>
   \<not> isImageFile ''/pictures/archive.png.zip'' \<and> \<not> isImageFile ''/pictures/a.jpg2''"
proof -
  note ev = same_ignoring_case_def same_letter_def upper_letters_def lower_letters_def
    sep_def dot_def
  have a: "isImageFile ''/pictures/holiday.JPG''"
    using isImageFile_iff [where dir = "''/pictures/''" and name = "''holiday''" and e = "''JPG''",
        THEN conjunct2, THEN conjunct2]
    by (simp add: ev)
  have b: "isImageFile ''portrait.WebP''"
    using isImageFile_iff [where dir = "[]" and name = "''portrait''" and e = "''WebP''",
        THEN conjunct2, THEN conjunct2]
    by (simp add: ev)
  have c: "isImageFile ''a.b/scan.Jpeg''"
    using isImageFile_iff [where dir = "''a.b/''" and name = "''scan''" and e = "''Jpeg''",
        THEN conjunct2, THEN conjunct2]
    by (simp add: ev)
  have d: "isImageFile ''/scans/page.PNG''"
    using isImageFile_iff [where dir = "''/scans/''" and name = "''page''" and e = "''PNG''",
        THEN conjunct2, THEN conjunct2]
    by (simp add: ev)
  have e: "isImageFile ''/scans/page.JPEG''"
    using isImageFile_iff [where dir = "''/scans/''" and name = "''page''" and e = "''JPEG''",
        THEN conjunct2, THEN conjunct2]
    by (simp add: ev)
  have f: "isImageFile ''/scans/page.WEBP'' \<and> extension ''/scans/page.WEBP'' = ''.WEBP''"
    using isImageFile_iff [where dir = "''/scans/''" and name = "''page''" and e = "''WEBP''",
        THEN conjunct2, THEN conjunct2]
    by (simp add: ev)
  have g: "isImageFile ''/scans/page.bMp''"
    using isImageFile_iff [where dir = "''/scans/''" and name = "''page''" and e = "''bMp''",
        THEN conjunct2, THEN conjunct2]
    by (simp add: ev)
  have h: "\<not> isImageFile ''/pictures/notes.txt''"
    using isImageFile_iff [where dir = "''/pictures/''" and name = "''notes''" and e = "''txt''",
        THEN conjunct2, THEN conjunct2]
    by (simp add: ev)
  have i: "\<not> isImageFile ''/pictures/png''"
    using isImageFile_iff [of "''/pictures/png''", THEN conjunct2, THEN conjunct1]
    by (simp add: ev extension_def filename_def)
  have j: "\<not> isImageFile ''/pictures/archive.png.zip''"
    using isImageFile_iff [where dir = "''/pictures/''" and name = "''archive.png''"
        and e = "''zip''", THEN conjunct2, THEN conjunct2]
    by (simp add: ev)
  have k: "\<not> isImageFile ''/pictures/a.jpg2''"
    using isImageFile_iff [where dir = "''/pictures/''" and name = "''a''" and e = "''jpg2''",
        THEN conjunct2, THEN conjunct2]
    by (simp add: ev)
  show ?thesis using a b c d e f g h i j k by simp
qed

subsection \<open>Mover\<close>

lemma directory_exists: "fs_is_directory fs p \<Longrightarrow> fs_exists fs p"
  by (auto simp: fs_is_directory_def fs_exists_def split: option.splits node.splits)

lemma exists_map_of: "fs_exists fs p \<Longrightarrow> map_of fs p \<noteq> None"
  by (auto simp: fs_exists_def split: option.splits)

lemma not_exists_iff: "\<not> fs_exists fs p \<longleftrightarrow> map_of fs p = None \<or> unresolved_link fs p"
  by (auto simp: fs_exists_def unresolved_link_def split: option.splits node.splits)

lemma regular_file_node: "fs_is_regular_file fs p \<Longrightarrow> \<exists>c. map_of fs p = Some (RegularFile c)"
  by (auto simp: fs_is_regular_file_def split: option.splits node.splits)

lemma filename_no_sep: "sep \<notin> set (filename p)"
  by (auto simp: filename_def dest: set_takeWhileD)

lemma extension_filename: "extension p \<noteq> [] \<Longrightarrow> filename p \<noteq> []"
  by (auto simp: extension_def Let_def split: if_splits)

lemma image_has_extension: "isImageFile p \<Longrightarrow> extension p \<noteq> []"
  by (auto simp: isImageFile_def toLowerCopy_def kExtensions_def)

lemma path_append_longer: "f \<noteq> [] \<Longrightarrow> sep \<notin> set f \<Longrightarrow> length d < length (path_append d f)"
  by (cases f) (auto simp: path_append_def)

lemma destinationFile_longer:
  "isImageFile p \<Longrightarrow> length (destinationFolder p) < length (destinationFile p)"
  unfolding destinationFile_def
  by (intro path_append_longer extension_filename image_has_extension filename_no_sep)

lemma stem_no_sep: "sep \<notin> set (stem p)"
  using filename_no_sep [of p] by (auto simp: stem_def Let_def dest: in_set_takeD)

lemma stem_not_empty: "extension p \<noteq> [] \<Longrightarrow> stem p \<noteq> []"
proof -
  assume x: "extension p \<noteq> []"
  let ?f = "filename p"
  let ?e = "rev (takeWhile (\<lambda>c. c \<noteq> dot) (rev ?f))"
  from x have d: "dot \<in> set ?f" and n: "Suc (length ?e) \<noteq> length ?f"
    and e: "extension p = dot # ?e"
    by (auto simp: extension_def Let_def split: if_splits)
  have "dropWhile (\<lambda>c. c \<noteq> dot) (rev ?f) \<noteq> []"
    using d by (simp add: dropWhile_eq_Nil_conv)
  then have "0 < length (dropWhile (\<lambda>c. c \<noteq> dot) (rev ?f))" by simp
  moreover have "length (takeWhile (\<lambda>c. c \<noteq> dot) (rev ?f)) +
      length (dropWhile (\<lambda>c. c \<noteq> dot) (rev ?f)) = length (rev ?f)"
    by (simp only: length_append [symmetric] takeWhile_dropWhile_id)
  ultimately have "length (takeWhile (\<lambda>c. c \<noteq> dot) (rev ?f)) < length (rev ?f)"
    by linarith
  then have "length ?e < length ?f" by simp
  with n have "length (extension p) < length ?f" unfolding e by simp
  then show ?thesis by (auto simp: stem_def Let_def)
qed

lemma parent_path_is_prefix: "prefix (parent_path p) p"
  using parent_path_prefix [of p] by (auto simp: prefix_def)

lemma parent_of_append:
  assumes "st \<noteq> []" and "sep \<notin> set st"
    and "a = [] \<or> a = [sep] \<or> (a \<noteq> [] \<and> last a \<noteq> sep)"
  shows "parent_path (path_append a st) = a"
proof -
  have hd: "hd st \<noteq> sep" using assms(1,2) by (cases st) auto
  have all: "\<And>x. x \<in> set (rev st) \<Longrightarrow> x \<noteq> sep" using assms(2) by auto
  have dw: "dropWhile (\<lambda>c. c \<noteq> sep) (rev st @ ys) = dropWhile (\<lambda>c. c \<noteq> sep) ys" for ys
    using all by (rule dropWhile_append2)
  consider (empty) "a = []" | (root) "a = [sep]" | (dir) "a \<noteq> []" "last a \<noteq> sep"
    using assms(3) by blast
  then show ?thesis
  proof cases
    case empty
    have pa: "path_append a st = st" using empty assms(1) hd by (cases st) (auto simp: path_append_def)
    have d: "rev (dropWhile (\<lambda>c. c \<noteq> sep) (rev st)) = []"
      using dw [of "[]"] by simp
    show ?thesis unfolding pa parent_path_def Let_def d using empty assms(1) by simp
  next
    case root
    have pa: "path_append a st = sep # st" using root assms(1) hd by (cases st) (auto simp: path_append_def)
    have d: "rev (dropWhile (\<lambda>c. c \<noteq> sep) (rev (sep # st))) = [sep]"
      using dw [of "[sep]"] by simp
    show ?thesis unfolding pa parent_path_def Let_def d using root assms(1) by simp
  next
    case dir
    have pa: "path_append a st = a @ sep # st"
      using dir assms(1) hd by (cases st) (auto simp: path_append_def)
    have d: "rev (dropWhile (\<lambda>c. c \<noteq> sep) (rev (a @ sep # st))) = a @ [sep]"
      using dw [of "sep # rev a"] by simp
    have "hd (rev a) \<noteq> sep" using dir by (simp add: hd_rev)
    then have "dropWhile (\<lambda>c. c = sep) (rev a) = rev a"
      using dir by (cases "rev a") simp_all
    then have t: "rev (dropWhile (\<lambda>c. c = sep) (rev (a @ [sep]))) = a" by simp
    show ?thesis unfolding pa parent_path_def Let_def d t using dir by simp
  qed
qed

lemma take1_separators: "\<forall>x \<in> set d. x = sep \<Longrightarrow> take 1 d = [] \<or> take 1 d = [sep]"
  by (cases d) auto

lemma last_rev_dropWhile: "dropWhile P xs \<noteq> [] \<Longrightarrow> \<not> P (last (rev (dropWhile P xs)))"
  by (simp add: last_rev hd_dropWhile)

lemma rev_dropWhile_Nil: "rev (dropWhile P (rev d)) = [] \<Longrightarrow> \<forall>x \<in> set d. P x"
  by (simp add: dropWhile_eq_Nil_conv)

lemma append_self_Nil: "d @ f = d \<Longrightarrow> f = []"
  by simp

lemma parent_path_shape:
  assumes "filename p \<noteq> []"
  shows "parent_path p = [] \<or> parent_path p = [sep] \<or>
    (parent_path p \<noteq> [] \<and> last (parent_path p) \<noteq> sep)"
proof -
  let ?d = "rev (dropWhile (\<lambda>c. c \<noteq> sep) (rev p))"
  let ?t = "rev (dropWhile (\<lambda>c. c = sep) (rev ?d))"
  have pd: "p = ?d @ filename p" unfolding filename_def by (rule rev_dropWhile_prefix)
  have dp: "?d \<noteq> p"
  proof
    assume dp: "?d = p"
    have "?d @ filename p = p" using pd by (rule sym)
    also have "p = ?d" using dp by (rule sym)
    finally have "filename p = []" by (rule append_self_Nil)
    with assms show False by (rule notE)
  qed
  show ?thesis
  proof (cases "?t \<noteq> []")
    case True
    then have eq: "parent_path p = ?t" unfolding parent_path_def Let_def by (rule if_P)
    from True have ne: "dropWhile (\<lambda>c. c = sep) (rev ?d) \<noteq> []"
      by (simp only: rev_is_Nil_conv not_False_eq_True)
    then have "\<not> (last ?t = sep)" by (rule last_rev_dropWhile)
    with True have "?t \<noteq> [] \<and> last ?t \<noteq> sep" by (rule conjI)
    then show ?thesis unfolding eq by (intro disjI2)
  next
    case False
    then have e1: "parent_path p = (if ?d = p then p else take 1 ?d)"
      unfolding parent_path_def Let_def by (rule if_not_P)
    from dp have "(if ?d = p then p else take 1 ?d) = take 1 ?d" by (rule if_not_P)
    with e1 have eq: "parent_path p = take 1 ?d" by (rule trans)
    from False have "?t = []" by (simp only: not_not)
    then have alls: "\<forall>x \<in> set ?d. x = sep" by (rule rev_dropWhile_Nil)
    then have "take 1 ?d = [] \<or> take 1 ?d = [sep]" by (rule take1_separators)
    then show ?thesis unfolding eq by blast
  qed
qed

lemma destinationFolder_parent:
  assumes "isImageFile p"
  shows "parent_path (destinationFolder p) = parent_path p"
proof -
  have x: "extension p \<noteq> []" using assms by (rule image_has_extension)
  have "stem p \<noteq> []" using x by (rule stem_not_empty)
  moreover have "sep \<notin> set (stem p)" by (rule stem_no_sep)
  moreover have "parent_path p = [] \<or> parent_path p = [sep] \<or>
      (parent_path p \<noteq> [] \<and> last (parent_path p) \<noteq> sep)"
    using extension_filename [OF x] by (rule parent_path_shape)
  ultimately show ?thesis unfolding destinationFolder_def by (rule parent_of_append)
qed

lemma create_directory_frame:
  "fs_create_directory env p fs = (r, fs') \<Longrightarrow>
   map_of fs' q = map_of fs q \<or> (q = p \<and> map_of fs q = None \<and> map_of fs' q = Some Directory)"
  by (auto simp: fs_create_directory_def update_conv' split: option.splits node.splits if_splits)

lemma create_directories_frame:
  "fs_create_directories env p fs = (r, fs') \<Longrightarrow>
   map_of fs' q = map_of fs q \<or>
   (map_of fs q = None \<and> map_of fs' q = Some Directory \<and> prefix q p)"
proof (induction env p fs arbitrary: r fs' q rule: fs_create_directories.induct)
  case (1 env p fs)
  note eq = fs_create_directories.simps [of env p fs]
  show ?case
  proof (cases "p = [] \<or> map_of fs p = Some LinkLoop \<or> fs_exists fs p")
    case True
    with "1.prems" have "fs' = fs"
      by (auto simp: eq split: if_splits)
    then show ?thesis by simp
  next
    case False
    then have ne: "p \<noteq> []" and nl: "map_of fs p \<noteq> Some LinkLoop" and nx: "\<not> fs_exists fs p"
      by auto
    show ?thesis
    proof (cases "parent_path p = p \<or> parent_path p = []")
      case True
      with ne nl nx "1.prems" have "fs_create_directory env p fs = (r, fs')"
        by (simp add: eq)
      then show ?thesis
        using create_directory_frame [of env p fs r fs' q] by auto
    next
      case False
      obtain r1 fs1 where rec: "fs_create_directories env (parent_path p) fs = (r1, fs1)"
        by force
      have ih: "map_of fs1 x = map_of fs x \<or>
          (map_of fs x = None \<and> map_of fs1 x = Some Directory \<and> prefix x (parent_path p))" for x
        using "1.IH" [OF ne nl nx False rec] .
      have pp: "prefix (parent_path p) p" by (rule parent_path_is_prefix)
      have ih': "map_of fs1 x = map_of fs x \<or>
          (map_of fs x = None \<and> map_of fs1 x = Some Directory \<and> prefix x p)" for x
        using ih [of x] pp by (auto intro: prefix_order.trans)
      show ?thesis
      proof (cases r1)
        case (Some m)
        with ne nl nx False rec "1.prems" have "fs' = fs1"
          by (simp add: eq)
        with ih' [of q] show ?thesis by simp
      next
        case None
        with ne nl nx False rec "1.prems" have cd: "fs_create_directory env p fs1 = (r, fs')"
          by (simp add: eq)
        from create_directory_frame [OF cd, of q] ih' [of q] show ?thesis by auto
      qed
    qed
  qed
qed

lemma create_directories_existing:
  "p \<noteq> [] \<Longrightarrow> fs_is_directory fs p \<Longrightarrow> fs_create_directories env p fs = (None, fs)"
proof -
  assume ne: "p \<noteq> []" and d: "fs_is_directory fs p"
  have "fs_exists fs p" using d by (rule directory_exists)
  moreover have "map_of fs p \<noteq> Some LinkLoop"
    using d by (auto simp: fs_is_directory_def)
  ultimately show ?thesis
    using ne d by (simp add: fs_create_directories.simps [of env p fs])
qed

lemma create_directories_parent_present:
  assumes "parent_path p = [] \<or> fs_is_directory fs (parent_path p)"
    and "fs_create_directories env p fs = (r, fs')"
  shows "map_of fs' q = map_of fs q \<or>
    (q = p \<and> map_of fs q = None \<and> map_of fs' q = Some Directory)"
proof -
  note eq = fs_create_directories.simps [of env p fs]
  show ?thesis
  proof (cases "p = [] \<or> map_of fs p = Some LinkLoop \<or> fs_exists fs p")
    case True
    with assms(2) have "fs' = fs"
      by (auto simp: eq split: if_splits)
    then show ?thesis by simp
  next
    case False
    then have ne: "p \<noteq> []" and nl: "map_of fs p \<noteq> Some LinkLoop" and nx: "\<not> fs_exists fs p"
      by auto
    have "fs_create_directory env p fs = (r, fs')"
    proof (cases "parent_path p = p \<or> parent_path p = []")
      case True
      with ne nl nx assms(2) show ?thesis by (simp add: eq)
    next
      case False
      with assms(1) have "fs_create_directories env (parent_path p) fs = (None, fs)"
        by (intro create_directories_existing) auto
      with False ne nl nx assms(2) show ?thesis by (simp add: eq)
    qed
    then show ?thesis
      using create_directory_frame [of env p fs r fs' q] by auto
  qed
qed

lemma ensureDirectory_success_iff:
  "fst (ensureDirectory env d s) \<longleftrightarrow>
     fs_is_directory (files s) d \<or>
     (\<not> fs_exists (files s) d \<and> fst (fs_create_directories env d (files s)) = None)"
  by (auto simp: ensureDirectory_def directory_exists split: prod.splits option.splits)

lemma ensureDirectory_success_state:
  "ensureDirectory env d s = (True, s1) \<Longrightarrow> s1 = s\<lparr>files := files s1\<rparr>"
  by (auto simp: ensureDirectory_def split: prod.splits option.splits if_splits)

lemma ensureDirectory_frame:
  "ensureDirectory env d s = (ok, s1) \<Longrightarrow>
   map_of (files s1) q = map_of (files s) q \<or>
   (map_of (files s) q = None \<and> map_of (files s1) q = Some Directory \<and> prefix q d)"
proof -
  assume e: "ensureDirectory env d s = (ok, s1)"
  obtain r fs' where c: "fs_create_directories env d (files s) = (r, fs')" by force
  have "files s1 = files s \<or> files s1 = fs'"
    using e c unfolding ensureDirectory_def by (cases r) (auto split: if_splits)
  then show ?thesis using create_directories_frame [OF c, of q] by auto
qed

lemma ensureDirectory_frame_parent:
  "parent_path d = [] \<or> fs_is_directory (files s) (parent_path d) \<Longrightarrow>
   ensureDirectory env d s = (ok, s1) \<Longrightarrow>
   map_of (files s1) q = map_of (files s) q \<or>
   (q = d \<and> map_of (files s) q = None \<and> map_of (files s1) q = Some Directory)"
proof -
  assume h: "parent_path d = [] \<or> fs_is_directory (files s) (parent_path d)"
    and e: "ensureDirectory env d s = (ok, s1)"
  obtain r fs' where c: "fs_create_directories env d (files s) = (r, fs')" by force
  have "files s1 = files s \<or> files s1 = fs'"
    using e c unfolding ensureDirectory_def by (cases r) (auto split: if_splits)
  then show ?thesis using create_directories_parent_present [OF h c, of q] by auto
qed

lemma rename_error_unchanged: "fs_rename env a b fs = (Some m, fs') \<Longrightarrow> fs' = fs"
  by (auto simp: fs_rename_def split: option.splits)

lemma rename_success:
  "fs_rename env a b fs = (None, fs') \<Longrightarrow>
   \<exists>n. map_of fs a = Some n \<and> fs' = AList.update b n (AList.delete a fs)"
  by (auto simp: fs_rename_def split: option.splits)

lemma rename_result_iff:
  "fs_exists fs a \<Longrightarrow> fst (fs_rename env a b fs) = None \<longleftrightarrow> renameError env a b = None"
  by (auto simp: fs_rename_def dest: exists_map_of split: option.splits)

lemma moveFileToFolder_image:
  assumes "fs_is_regular_file (files s) p" and "isImageFile p"
  shows "moveFileToFolder env p s =
    (case ensureDirectory env (destinationFolder p) s of
       (False, s1) \<Rightarrow> (False, s1)
     | (True, s1) \<Rightarrow>
         if fs_exists (files s1) (destinationFile p) then
           (False,
            s1\<lparr>logger :=
                 logError env (destinationFile p) ''Destination file already exists.'' (logger s1),
               console_err :=
                 console_err s1 @ ''Destination already exists: '' @ destinationFile p @ nl\<rparr>)
         else
           (case fs_rename env p (destinationFile p) (files s1) of
              (Some message, fs') \<Rightarrow>
                (False,
                 s1\<lparr>files := fs',
                    logger :=
                      logError env (destinationFile p) (''Failed to move file: '' @ message)
                        (logger s1),
                    console_err :=
                      console_err s1 @ ''Failed to move '' @ quote @ p @ quote @ '': '' @
                      message @ nl\<rparr>)
            | (None, fs') \<Rightarrow>
                (True,
                 s1\<lparr>files := fs',
                    logger :=
                      logInfo env (''Moved '' @ p @ '' to '' @ destinationFolder p) (logger s1),
                    console_out :=
                      console_out s1 @ ''Moved '' @ quote @ filename p @ quote @ '' into '' @
                      quote @ filename (destinationFolder p) @ quote @ nl\<rparr>)))"
proof -
  obtain ok s1 where e: "ensureDirectory env (path_append (parent_path p) (stem p)) s = (ok, s1)"
    by force
  show ?thesis
    unfolding moveFileToFolder_def destinationFolder_def destinationFile_def Let_def
    using assms regular_file_exists [OF assms(1)] e
    by (cases ok) simp_all
qed

lemma moveFileToFolder_not_image:
  assumes "\<not> (fs_is_regular_file (files s) p \<and> isImageFile p)"
  shows "\<not> fst (moveFileToFolder env p s) \<and> files (snd (moveFileToFolder env p s)) = files s"
  using assms by (auto simp: moveFileToFolder_def)

lemma moveFileToFolder_failure_files:
  assumes "\<not> fst (moveFileToFolder env p s)"
  shows "files (snd (moveFileToFolder env p s)) = files s \<or>
    (fs_is_regular_file (files s) p \<and> isImageFile p \<and>
     files (snd (moveFileToFolder env p s)) =
       files (snd (ensureDirectory env (destinationFolder p) s)))"
proof (cases "fs_is_regular_file (files s) p \<and> isImageFile p")
  case False
  then show ?thesis using moveFileToFolder_not_image [of s p env] by simp
next
  case True
  obtain ok s1 where e: "ensureDirectory env (destinationFolder p) s = (ok, s1)" by force
  obtain r fs' where rn: "fs_rename env p (destinationFile p) (files s1) = (r, fs')" by force
  have "files (snd (moveFileToFolder env p s)) = files s1"
    using True assms e rn rename_error_unchanged [of env p "destinationFile p" "files s1" _ fs']
    by (cases ok; cases r) (auto simp: moveFileToFolder_image split: if_splits)
  with True e show ?thesis by simp
qed

lemma moveFileToFolder_failure_frame:
  assumes "\<not> fst (moveFileToFolder env p s)"
  shows "map_of (files (snd (moveFileToFolder env p s))) q = map_of (files s) q \<or>
    (map_of (files s) q = None \<and>
     map_of (files (snd (moveFileToFolder env p s))) q = Some Directory \<and>
     prefix q (destinationFolder p))"
proof -
  obtain ok s1 where e: "ensureDirectory env (destinationFolder p) s = (ok, s1)" by force
  then have "files (snd (ensureDirectory env (destinationFolder p) s)) = files s1" by simp
  then show ?thesis
    using moveFileToFolder_failure_files [OF assms] ensureDirectory_frame [OF e, of q] by auto
qed

lemma moveFileToFolder_failure_frame_parent:
  assumes "\<not> fst (moveFileToFolder env p s)"
    and "parent_path p = [] \<or> fs_is_directory (files s) (parent_path p)"
  shows "map_of (files (snd (moveFileToFolder env p s))) q = map_of (files s) q \<or>
    (q = destinationFolder p \<and> map_of (files s) q = None \<and>
     map_of (files (snd (moveFileToFolder env p s))) q = Some Directory)"
proof -
  from moveFileToFolder_failure_files [OF assms(1)]
  show ?thesis
  proof
    assume "files (snd (moveFileToFolder env p s)) = files s"
    then show ?thesis by simp
  next
    assume a: "fs_is_regular_file (files s) p \<and> isImageFile p \<and>
      files (snd (moveFileToFolder env p s)) =
        files (snd (ensureDirectory env (destinationFolder p) s))"
    then have "parent_path (destinationFolder p) = parent_path p"
      by (intro destinationFolder_parent) simp
    with assms(2) have "parent_path (destinationFolder p) = [] \<or>
        fs_is_directory (files s) (parent_path (destinationFolder p))" by simp
    then have h: "parent_path (destinationFolder p) = [] \<or>
        fs_is_directory (files s) (parent_path (destinationFolder p))" .
    obtain ok s1 where e: "ensureDirectory env (destinationFolder p) s = (ok, s1)" by force
    then have "files (snd (ensureDirectory env (destinationFolder p) s)) = files s1" by simp
    then show ?thesis
      using a ensureDirectory_frame_parent [OF h e, of q] by auto
  qed
qed

lemmas path_eval = filename_def extension_def stem_def parent_path_def path_append_def
  destinationFolder_def destinationFile_def sep_def dot_def Let_def

lemmas fs_eval = fs_exists_def fs_is_directory_def fs_is_regular_file_def

text \<open>
  Claim C10. A regular file whose name begins with a period and has no other period has
  an empty extension; the classifier rejects it, and the mover returns false without
  touching the file system or the consoles, its only effect being the line
  \<^verbatim>\<open>INFO: Skipping non-image file: <path>\<close> on the log stream.
\<close>

theorem dotfile_skipped:
  assumes "filename p = dot # rest" and "dot \<notin> set rest"
    and "fs_is_regular_file (files s) p"
  shows "extension p = [] \<and> \<not> isImageFile p \<and>
    moveFileToFolder env p s =
      (False, s\<lparr>logger := logInfo env (''Skipping non-image file: '' @ p) (logger s)\<rparr>) \<and>
    (stream_good (logger s) \<longrightarrow>
      stream_buffer (logger (snd (moveFileToFolder env p s))) =
        stream_buffer (logger s) @ ''['' @ clock env @ ''] INFO: Skipping non-image file: '' @
        p @ nl)"
proof -
  have e: "extension p = []" using assms(1,2) by (rule extension_dotfile)
  then have n: "\<not> isImageFile p" by (rule not_image_without_extension)
  have x: "fs_exists (files s) p" using assms(3) by (rule regular_file_exists)
  have m: "moveFileToFolder env p s =
      (False, s\<lparr>logger := logInfo env (''Skipping non-image file: '' @ p) (logger s)\<rparr>)"
    using n x assms(3) by (simp add: moveFileToFolder_def)
  show ?thesis using e n m by (simp add: logInfo_def)
qed

theorem dotfile_skipped_witness:
  "extension ''/home/pics/.png'' = [] \<and> \<not> isImageFile ''/home/pics/.png'' \<and>
   fst (moveFileToFolder env0 ''/home/pics/.png'' (Logger env0 world0)) = False \<and>
   files (snd (moveFileToFolder env0 ''/home/pics/.png'' (Logger env0 world0))) = files world0 \<and>
   stream_buffer (logger (snd (moveFileToFolder env0 ''/home/pics/.png'' (Logger env0 world0)))) =
     ''--- Run started at 2024-05-01 10:00:00 ---'' @ nl @
     ''[2024-05-01 10:00:00] INFO: Skipping non-image file: /home/pics/.png'' @ nl"
  using dotfile_skipped [where p = "''/home/pics/.png''" and rest = "''png''"
      and s = "Logger env0 world0" and env = env0]
  by (simp add: filename_def sep_def dot_def fs_is_regular_file_def Logger_def
      detectLogFilePath_def path_append_def open_append_def env0_def world0_def logInfo_def
      Let_def)

lemma directory_entries_iff:
  "x \<in> set (directory_entries fs d) \<longleftrightarrow>
     map_of fs x \<noteq> None \<and> filename x \<noteq> [] \<and> x = path_append d (filename x)"
  by (auto simp: directory_entries_def map_of_eq_None_iff)

lemma directory_entry_longer: "x \<in> set (directory_entries fs d) \<Longrightarrow> length d < length x"
proof -
  assume "x \<in> set (directory_entries fs d)"
  then have f: "filename x \<noteq> []" and x: "x = path_append d (filename x)"
    by (auto simp: directory_entries_def)
  have "length d < length (path_append d (filename x))"
    using f filename_no_sep by (rule path_append_longer)
  with x show ?thesis by simp
qed

lemma directory_entries_frame:
  assumes "\<And>q. map_of fs' q = map_of fs q \<or>
      (map_of fs q = None \<and> map_of fs' q = Some Directory \<and> prefix q d)"
  shows "set (directory_entries fs' d) = set (directory_entries fs d)"
proof -
  have "map_of fs' x = map_of fs x"
    if f: "filename x \<noteq> []" and x: "x = path_append d (filename x)" for x
  proof -
    have "length d < length (path_append d (filename x))"
      using f filename_no_sep by (rule path_append_longer)
    with x have "length d < length x" by simp
    then have "\<not> prefix x d" by (auto dest: prefix_length_le)
    with assms [of x] show ?thesis by blast
  qed
  then show ?thesis by (auto simp: directory_entries_iff)
qed

text \<open>
  Claim C1, amended. Where the destination path does not hold a symbolic link that fails
  to resolve, the mover moves the file if and only if (a) the path is an existing regular
  file, (b) its extension is in the extension set, (c) the destination folder exists as a
  directory or does not exist and can be created, (d) no entry occupies the destination
  path, and (e) the operating system performs the rename. After a move the node is absent
  from the source path and present at the destination path. After every failing outcome
  each path holds what it held before, except that a path that held nothing and is a
  leading part of the destination folder's path may now hold a directory; when the
  directory of the file is present (or the path has no directory part) the only such path
  is the destination folder itself. The destination folder has the entries it had before:
  the source file remains, no file is created and nothing is put into the folder.
\<close>

theorem moveFileToFolder_moves_iff:
  "(\<not> unresolved_link (files s) (destinationFile p) \<longrightarrow>
      (fst (moveFileToFolder env p s) \<longleftrightarrow>
         fs_is_regular_file (files s) p \<and> isImageFile p \<and>
         (fs_is_directory (files s) (destinationFolder p) \<or>
          (\<not> fs_exists (files s) (destinationFolder p) \<and>
           fst (fs_create_directories env (destinationFolder p) (files s)) = None)) \<and>
         map_of (files s) (destinationFile p) = None \<and>
         renameError env p (destinationFile p) = None)) \<and>
   (fst (moveFileToFolder env p s) \<longrightarrow>
      map_of (files (snd (moveFileToFolder env p s))) p = None \<and>
      map_of (files (snd (moveFileToFolder env p s))) (destinationFile p) = map_of (files s) p) \<and>
   (\<not> fst (moveFileToFolder env p s) \<longrightarrow>
      (\<forall>q. map_of (files (snd (moveFileToFolder env p s))) q = map_of (files s) q \<or>
           (map_of (files s) q = None \<and>
            map_of (files (snd (moveFileToFolder env p s))) q = Some Directory \<and>
            prefix q (destinationFolder p))) \<and>
      (parent_path p = [] \<or> fs_is_directory (files s) (parent_path p) \<longrightarrow>
         (\<forall>q. map_of (files (snd (moveFileToFolder env p s))) q = map_of (files s) q \<or>
              (q = destinationFolder p \<and> map_of (files s) q = None \<and>
               map_of (files (snd (moveFileToFolder env p s))) q = Some Directory))) \<and>
      set (directory_entries (files (snd (moveFileToFolder env p s))) (destinationFolder p)) =
        set (directory_entries (files s) (destinationFolder p)))"
proof -
  have part3: "(\<forall>q. map_of (files (snd (moveFileToFolder env p s))) q = map_of (files s) q \<or>
           (map_of (files s) q = None \<and>
            map_of (files (snd (moveFileToFolder env p s))) q = Some Directory \<and>
            prefix q (destinationFolder p))) \<and>
      (parent_path p = [] \<or> fs_is_directory (files s) (parent_path p) \<longrightarrow>
         (\<forall>q. map_of (files (snd (moveFileToFolder env p s))) q = map_of (files s) q \<or>
              (q = destinationFolder p \<and> map_of (files s) q = None \<and>
               map_of (files (snd (moveFileToFolder env p s))) q = Some Directory))) \<and>
      set (directory_entries (files (snd (moveFileToFolder env p s))) (destinationFolder p)) =
        set (directory_entries (files s) (destinationFolder p))"
    if nm: "\<not> fst (moveFileToFolder env p s)"
  proof -
    have a: "map_of (files (snd (moveFileToFolder env p s))) q = map_of (files s) q \<or>
           (map_of (files s) q = None \<and>
            map_of (files (snd (moveFileToFolder env p s))) q = Some Directory \<and>
            prefix q (destinationFolder p))" for q
      using nm by (rule moveFileToFolder_failure_frame)
    have b: "map_of (files (snd (moveFileToFolder env p s))) q = map_of (files s) q \<or>
              (q = destinationFolder p \<and> map_of (files s) q = None \<and>
               map_of (files (snd (moveFileToFolder env p s))) q = Some Directory)"
      if "parent_path p = [] \<or> fs_is_directory (files s) (parent_path p)" for q
      using nm that by (rule moveFileToFolder_failure_frame_parent)
    have c: "set (directory_entries (files (snd (moveFileToFolder env p s))) (destinationFolder p)) =
        set (directory_entries (files s) (destinationFolder p))"
      using a by (rule directory_entries_frame)
    show ?thesis using a b c by blast
  qed
  show ?thesis
  proof (cases "fs_is_regular_file (files s) p \<and> isImageFile p")
    case False
    then have "\<not> fst (moveFileToFolder env p s)"
      using moveFileToFolder_not_image [of s p env] by simp
    with False part3 show ?thesis by blast
  next
    case True
    then have reg: "fs_is_regular_file (files s) p" and img: "isImageFile p" by auto
    obtain ok s1 where e: "ensureDirectory env (destinationFolder p) s = (ok, s1)" by force
    have okiff: "ok \<longleftrightarrow>
        fs_is_directory (files s) (destinationFolder p) \<or>
        (\<not> fs_exists (files s) (destinationFolder p) \<and>
         fst (fs_create_directories env (destinationFolder p) (files s)) = None)"
      using ensureDirectory_success_iff [of env "destinationFolder p" s] e by simp
    have fr: "map_of (files s1) q = map_of (files s) q \<or>
        (map_of (files s) q = None \<and> map_of (files s1) q = Some Directory \<and>
         prefix q (destinationFolder p))" for q
      using e by (rule ensureDirectory_frame)
    have src: "map_of (files s1) p = map_of (files s) p"
      using fr [of p] regular_file_node [OF reg] by auto
    have "\<not> prefix (destinationFile p) (destinationFolder p)"
      using destinationFile_longer [OF img] by (auto dest: prefix_length_le)
    then have dst: "map_of (files s1) (destinationFile p) = map_of (files s) (destinationFile p)"
      using fr [of "destinationFile p"] by blast
    have ex1: "fs_exists (files s1) p"
      using src regular_file_exists [OF reg] by (simp add: fs_exists_def)
    obtain r fs' where rn: "fs_rename env p (destinationFile p) (files s1) = (r, fs')" by force
    have riff: "r = None \<longleftrightarrow> renameError env p (destinationFile p) = None"
      using rename_result_iff [OF ex1, of env "destinationFile p"] rn by simp
    have res: "fst (moveFileToFolder env p s) \<longleftrightarrow>
        ok \<and> \<not> fs_exists (files s1) (destinationFile p) \<and> r = None"
      using e rn by (cases ok; cases r) (auto simp: moveFileToFolder_image [OF reg img])
    have part1: "fst (moveFileToFolder env p s) \<longleftrightarrow>
        fs_is_regular_file (files s) p \<and> isImageFile p \<and>
        (fs_is_directory (files s) (destinationFolder p) \<or>
         (\<not> fs_exists (files s) (destinationFolder p) \<and>
          fst (fs_create_directories env (destinationFolder p) (files s)) = None)) \<and>
        map_of (files s) (destinationFile p) = None \<and>
        renameError env p (destinationFile p) = None"
      if nl: "\<not> unresolved_link (files s) (destinationFile p)"
    proof -
      have "\<not> fs_exists (files s1) (destinationFile p) \<longleftrightarrow>
          map_of (files s) (destinationFile p) = None"
        using nl dst by (simp add: not_exists_iff unresolved_link_def)
      then show ?thesis using res okiff riff reg img by simp
    qed
    have part2: "map_of (files (snd (moveFileToFolder env p s))) p = None \<and>
        map_of (files (snd (moveFileToFolder env p s))) (destinationFile p) = map_of (files s) p"
      if mv: "fst (moveFileToFolder env p s)"
    proof -
      from mv res have ok: ok and nd: "\<not> fs_exists (files s1) (destinationFile p)"
        and rN: "r = None" by auto
      from rn rN obtain n where n: "map_of (files s1) p = Some n"
        and fs': "fs' = AList.update (destinationFile p) n (AList.delete p (files s1))"
        using rename_success by blast
      have ne: "destinationFile p \<noteq> p" using nd ex1 by auto
      have "files (snd (moveFileToFolder env p s)) = fs'"
        using e rn ok nd rN by (simp add: moveFileToFolder_image [OF reg img])
      then show ?thesis using fs' n src ne by (simp add: update_conv' delete_conv')
    qed
    show ?thesis using part1 part2 part3 by blast
  qed
qed

text \<open>
  Claim C1, as stated, fails: every condition (a) to (d) holds for the picture
  \<^verbatim>\<open>/home/pics/photo.png\<close> (a regular file with a supported extension, whose folder
  \<^verbatim>\<open>/home/pics/photo\<close> does not exist and can be created, and whose destination path is
  free), and the mover does not move it, because \<^verbatim>\<open>fs::rename\<close> reports an error.
\<close>

theorem moveFileToFolder_rename_refused:
  "fs_is_regular_file (files world0) ''/home/pics/photo.png'' \<and>
   isImageFile ''/home/pics/photo.png'' \<and>
   \<not> fs_exists (files world0) (destinationFolder ''/home/pics/photo.png'') \<and>
   fst (fs_create_directories env_rename_denied (destinationFolder ''/home/pics/photo.png'')
          (files world0)) = None \<and>
   \<not> fs_exists (files world0) (destinationFile ''/home/pics/photo.png'') \<and>
   \<not> fst (moveFileToFolder env_rename_denied ''/home/pics/photo.png'' world0)"
  by (simp add: path_eval fs_eval world0_def env0_def env_rename_denied_def
      isImageFile_def toLowerCopy_def tolower_Char kExtensions_def
      fs_create_directories.simps fs_create_directory_def
      moveFileToFolder_def ensureDirectory_def fs_rename_def)

theorem moveFileToFolder_moves_iff_witness:
  "fst (moveFileToFolder env0 ''/home/pics/photo.png'' world0) \<and>
   map_of (files (snd (moveFileToFolder env0 ''/home/pics/photo.png'' world0)))
     ''/home/pics/photo.png'' = None \<and>
   map_of (files (snd (moveFileToFolder env0 ''/home/pics/photo.png'' world0)))
     ''/home/pics/photo/photo.png'' = Some (RegularFile ''PNG'') \<and>
   \<not> fst (moveFileToFolder env0 ''/home/pics/cat.jpg'' world0) \<and>
   map_of (files (snd (moveFileToFolder env0 ''/home/pics/cat.jpg'' world0)))
     ''/home/pics/cat.jpg'' = Some (RegularFile ''new cat'') \<and>
   map_of (files (snd (moveFileToFolder env0 ''/home/pics/cat.jpg'' world0)))
     ''/home/pics/cat/cat.jpg'' = Some (RegularFile ''old cat'') \<and>
   map_of (files (snd (moveFileToFolder env0 ''/home/pics/cat.jpg'' world0)))
     ''/home/pics/dog'' = None \<and>
   set (directory_entries (files (snd (moveFileToFolder env0 ''/home/pics/cat.jpg'' world0)))
          ''/home/pics/cat'') = {''/home/pics/cat/cat.jpg''}"
proof -
  have a: "fst (moveFileToFolder env0 ''/home/pics/photo.png'' world0) \<and>
     map_of (files (snd (moveFileToFolder env0 ''/home/pics/photo.png'' world0)))
       ''/home/pics/photo.png'' = None \<and>
     map_of (files (snd (moveFileToFolder env0 ''/home/pics/photo.png'' world0)))
       ''/home/pics/photo/photo.png'' = Some (RegularFile ''PNG'')"
    using moveFileToFolder_moves_iff [of world0 "''/home/pics/photo.png''" env0]
    by (simp add: path_eval fs_eval unresolved_link_def world0_def env0_def
        isImageFile_def toLowerCopy_def tolower_Char kExtensions_def
        fs_create_directories.simps fs_create_directory_def)
  have b: "\<not> fst (moveFileToFolder env0 ''/home/pics/cat.jpg'' world0)"
    using moveFileToFolder_moves_iff [of world0 "''/home/pics/cat.jpg''" env0]
    by (simp add: path_eval fs_eval unresolved_link_def world0_def env0_def)
  have par: "parent_path ''/home/pics/cat.jpg'' = [] \<or>
      fs_is_directory (files world0) (parent_path ''/home/pics/cat.jpg'')"
    by (simp add: path_eval fs_eval world0_def)
  have c: "map_of (files (snd (moveFileToFolder env0 ''/home/pics/cat.jpg'' world0))) q =
        map_of (files world0) q \<or>
      (q = destinationFolder ''/home/pics/cat.jpg'' \<and> map_of (files world0) q = None \<and>
       map_of (files (snd (moveFileToFolder env0 ''/home/pics/cat.jpg'' world0))) q =
         Some Directory)" for q
    using moveFileToFolder_moves_iff [of world0 "''/home/pics/cat.jpg''" env0] b par by blast
  have d: "set (directory_entries (files (snd (moveFileToFolder env0 ''/home/pics/cat.jpg'' world0)))
          (destinationFolder ''/home/pics/cat.jpg'')) =
      set (directory_entries (files world0) (destinationFolder ''/home/pics/cat.jpg''))"
    using moveFileToFolder_moves_iff [of world0 "''/home/pics/cat.jpg''" env0] b by blast
  have e: "set (directory_entries (files world0) ''/home/pics/cat'') = {''/home/pics/cat/cat.jpg''}"
    by (simp add: directory_entries_def world0_def path_eval)
  have f: "destinationFolder ''/home/pics/cat.jpg'' = ''/home/pics/cat''"
    by (simp add: path_eval)
  show ?thesis
    using a b c [of "''/home/pics/cat.jpg''"] c [of "''/home/pics/cat/cat.jpg''"]
      c [of "''/home/pics/dog''"] d e f
    by (simp add: world0_def)
qed

text \<open>
  The destination conflict as the code tests it. When the destination folder is a
  directory and \<^verbatim>\<open>fs::exists\<close> answers true for the destination path (an entry that
  resolves: a file, a directory, a link with a target), the mover returns false and
  leaves the whole file system as it was; for a source that reached this step the outcome
  is the error line \<^verbatim>\<open>Destination file already exists.\<close> with the destination path as its
  target, and the message on the error console.
\<close>

lemma resolving_entry_conflict:
  assumes "fs_is_directory (files s) (destinationFolder p)"
    and "fs_exists (files s) (destinationFile p)"
  shows "\<not> fst (moveFileToFolder env p s) \<and>
    files (snd (moveFileToFolder env p s)) = files s \<and>
    (fs_is_regular_file (files s) p \<and> isImageFile p \<longrightarrow>
     moveFileToFolder env p s =
       (False,
        s\<lparr>logger :=
            logError env (destinationFile p) ''Destination file already exists.'' (logger s),
          console_err :=
            console_err s @ ''Destination already exists: '' @ destinationFile p @ nl\<rparr>))"
proof (cases "fs_is_regular_file (files s) p \<and> isImageFile p")
  case False
  then show ?thesis using moveFileToFolder_not_image [of s p env] by blast
next
  case True
  then have reg: "fs_is_regular_file (files s) p" and img: "isImageFile p" by auto
  have e: "ensureDirectory env (destinationFolder p) s = (True, s)"
    using assms(1) directory_exists [OF assms(1)] by (simp add: ensureDirectory_def)
  have "moveFileToFolder env p s =
       (False,
        s\<lparr>logger :=
            logError env (destinationFile p) ''Destination file already exists.'' (logger s),
          console_err :=
            console_err s @ ''Destination already exists: '' @ destinationFile p @ nl\<rparr>)"
    using e assms(2) by (simp add: moveFileToFolder_image [OF reg img])
  then show ?thesis by simp
qed

text \<open>
  Claim C6 at a failing input. The folder \<^verbatim>\<open>/home/pics/cat\<close> holds an entry named
  \<^verbatim>\<open>cat.jpg\<close>, a symbolic link whose target is missing. \<^verbatim>\<open>fs::exists\<close> follows the link and
  answers false, so the mover sees no conflict: it renames \<^verbatim>\<open>/home/pics/cat.jpg\<close> onto the
  entry, which is replaced by the file. The mover returns true, the source path is empty,
  the log holds a \<^verbatim>\<open>Moved\<close> line and no error is reported.
\<close>

theorem dangling_link_overwritten:
  "fs_is_regular_file (files world_dangling) ''/home/pics/cat.jpg'' \<and>
   destinationFolder ''/home/pics/cat.jpg'' = ''/home/pics/cat'' \<and>
   destinationFile ''/home/pics/cat.jpg'' = ''/home/pics/cat/cat.jpg'' \<and>
   directory_entries (files world_dangling) ''/home/pics/cat'' = [''/home/pics/cat/cat.jpg''] \<and>
   map_of (files world_dangling) ''/home/pics/cat/cat.jpg'' = Some DanglingLink \<and>
   fst (moveFileToFolder env0 ''/home/pics/cat.jpg'' (Logger env0 world_dangling)) \<and>
   map_of (files (snd (moveFileToFolder env0 ''/home/pics/cat.jpg'' (Logger env0 world_dangling))))
     ''/home/pics/cat.jpg'' = None \<and>
   map_of (files (snd (moveFileToFolder env0 ''/home/pics/cat.jpg'' (Logger env0 world_dangling))))
     ''/home/pics/cat/cat.jpg'' = Some (RegularFile ''new cat'') \<and>
   stream_buffer (logger (snd (moveFileToFolder env0 ''/home/pics/cat.jpg''
       (Logger env0 world_dangling)))) =
     ''--- Run started at 2024-05-01 10:00:00 ---'' @ nl @
     ''[2024-05-01 10:00:00] INFO: Moved /home/pics/cat.jpg to /home/pics/cat'' @ nl \<and>
   console_err (snd (moveFileToFolder env0 ''/home/pics/cat.jpg'' (Logger env0 world_dangling))) = []"
  by (simp add: path_eval fs_eval world_dangling_def env0_def Logger_def detectLogFilePath_def
      open_append_def directory_entries_def isImageFile_def toLowerCopy_def tolower_Char
      kExtensions_def moveFileToFolder_def ensureDirectory_def fs_rename_def logInfo_def
      update_conv' delete_conv')

subsection \<open>Scanner and batches\<close>

lemma length_move_each: "length (fst (move_each env items s)) = length items"
proof (induction items arbitrary: s)
  case Nil
  show ?case by simp
next
  case (Cons item rest)
  obtain moved s' where m: "moveFileToFolder env item s = (moved, s')" by force
  obtain outcomes s'' where r: "move_each env rest s' = (outcomes, s'')" by force
  have "length outcomes = length rest" using Cons.IH [of s'] r by simp
  then show ?case using m r by simp
qed

lemma length_scan_each: "length (fst (scan_each env items s)) = length items"
proof (induction items arbitrary: s)
  case Nil
  show ?case by simp
next
  case (Cons item rest)
  obtain moved s' where m:
    "(if fs_is_regular_file (files s) item \<and> isImageFile item
      then moveFileToFolder env item s else (False, s)) = (moved, s')" by force
  obtain outcomes s'' where r: "scan_each env rest s' = (outcomes, s'')" by force
  have "length outcomes = length rest" using Cons.IH [of s'] r by simp
  then show ?case using m r by simp
qed

lemma processFiles_loop_move_each:
  "processFiles_loop env items anyProcessed s =
     (anyProcessed \<or> True \<in> set (fst (move_each env items s)), snd (move_each env items s))"
proof (induction items arbitrary: anyProcessed s)
  case Nil
  show ?case by simp
next
  case (Cons item rest)
  obtain moved s' where m: "moveFileToFolder env item s = (moved, s')" by force
  obtain outcomes s'' where r: "move_each env rest s' = (outcomes, s'')" by force
  show ?case
    using m r Cons.IH [of True s'] Cons.IH [of anyProcessed s']
    by (cases moved) auto
qed

lemma moveFileToFolder_success_files:
  assumes "fst (moveFileToFolder env p s)"
  shows "\<exists>c fs1. map_of (files s) p = Some (RegularFile c) \<and>
    (\<forall>q. map_of fs1 q = map_of (files s) q \<or>
         (map_of (files s) q = None \<and> map_of fs1 q = Some Directory)) \<and>
    files (snd (moveFileToFolder env p s)) =
      AList.update (destinationFile p) (RegularFile c) (AList.delete p fs1)"
proof -
  have ri: "fs_is_regular_file (files s) p \<and> isImageFile p"
    using assms moveFileToFolder_not_image [of s p env] by blast
  then have reg: "fs_is_regular_file (files s) p" and img: "isImageFile p" by auto
  obtain c where c: "map_of (files s) p = Some (RegularFile c)"
    using regular_file_node [OF reg] by blast
  obtain ok s1 where e: "ensureDirectory env (destinationFolder p) s = (ok, s1)" by force
  have fr: "map_of (files s1) q = map_of (files s) q \<or>
      (map_of (files s) q = None \<and> map_of (files s1) q = Some Directory)" for q
    using ensureDirectory_frame [OF e, of q] by blast
  have src: "map_of (files s1) p = Some (RegularFile c)"
    using fr [of p] c by auto
  obtain r fs' where rn: "fs_rename env p (destinationFile p) (files s1) = (r, fs')" by force
  have res: "ok \<and> \<not> fs_exists (files s1) (destinationFile p) \<and> r = None \<and>
      files (snd (moveFileToFolder env p s)) = fs'"
    using assms e rn by (cases ok; cases r) (auto simp: moveFileToFolder_image [OF reg img] split: if_splits)
  then have "fs_rename env p (destinationFile p) (files s1) = (None, fs')" using rn by simp
  then have "fs' = AList.update (destinationFile p) (RegularFile c) (AList.delete p (files s1))"
    using rename_success [of env p "destinationFile p" "files s1" fs'] src by auto
  with c fr res show ?thesis by blast
qed

lemma moveFileToFolder_no_new_loop:
  assumes "map_of (files (snd (moveFileToFolder env p s))) q = Some LinkLoop"
  shows "map_of (files s) q = Some LinkLoop"
proof (cases "fst (moveFileToFolder env p s)")
  case False
  then show ?thesis using moveFileToFolder_failure_frame [of env p s q] assms by auto
next
  case True
  then obtain c fs1 where fr: "\<And>q. map_of fs1 q = map_of (files s) q \<or>
         (map_of (files s) q = None \<and> map_of fs1 q = Some Directory)"
    and f: "files (snd (moveFileToFolder env p s)) =
      AList.update (destinationFile p) (RegularFile c) (AList.delete p fs1)"
    using moveFileToFolder_success_files by blast
  have "map_of fs1 q = Some LinkLoop"
    using assms unfolding f by (auto simp: update_conv' delete_conv' split: if_splits)
  then show ?thesis using fr [of q] by auto
qed

lemma processDirectory_entry_eq:
  "map_of (files s) entry \<noteq> Some LinkLoop \<Longrightarrow>
   processDirectory_entry env entry anyProcessed s =
     Inr (case (if fs_is_regular_file (files s) entry \<and> isImageFile entry
                then moveFileToFolder env entry s else (False, s)) of
            (moved, s') \<Rightarrow> (anyProcessed \<or> moved, s'))"
  by (auto simp: processDirectory_entry_def entry_is_regular_file_def
      split: prod.splits bool.splits option.splits node.splits)

lemma processDirectory_entry_raises:
  "map_of (files s) entry = Some LinkLoop \<Longrightarrow>
   processDirectory_entry env entry anyProcessed s = Inl filesystem_error"
  by (simp add: processDirectory_entry_def entry_is_regular_file_def)

lemma processDirectory_loop_scan_each:
  "\<forall>e \<in> set entries. map_of (files s) e \<noteq> Some LinkLoop \<Longrightarrow>
   processDirectory_loop env d None entries None anyProcessed s =
     (Completed (anyProcessed \<or> True \<in> set (fst (scan_each env entries s))),
      snd (scan_each env entries s))"
proof (induction entries arbitrary: anyProcessed s)
  case Nil
  show ?case by simp
next
  case (Cons entry rest)
  obtain moved s' where m:
    "(if fs_is_regular_file (files s) entry \<and> isImageFile entry
      then moveFileToFolder env entry s else (False, s)) = (moved, s')" by force
  obtain outcomes s'' where r: "scan_each env rest s' = (outcomes, s'')" by force
  have nl: "map_of (files s) entry \<noteq> Some LinkLoop" using Cons.prems by simp
  have e: "processDirectory_entry env entry anyProcessed s = Inr (anyProcessed \<or> moved, s')"
    using m by (simp add: processDirectory_entry_eq [OF nl])
  have s': "s' = s \<or> s' = snd (moveFileToFolder env entry s)"
    using m by (auto split: if_splits)
  have "\<forall>e \<in> set rest. map_of (files s') e \<noteq> Some LinkLoop"
  proof
    fix x assume x: "x \<in> set rest"
    then have "map_of (files s) x \<noteq> Some LinkLoop" using Cons.prems by simp
    then show "map_of (files s') x \<noteq> Some LinkLoop"
      using s' moveFileToFolder_no_new_loop [of env entry s x] by auto
  qed
  then have "processDirectory_loop env d None rest None (anyProcessed \<or> moved) s' =
     (Completed ((anyProcessed \<or> moved) \<or> True \<in> set (fst (scan_each env rest s'))),
      snd (scan_each env rest s'))"
    by (rule Cons.IH)
  then show ?case
    using m r e by auto
qed

lemma scan_each_unsupported:
  "\<forall>e \<in> set entries. \<not> isImageFile e \<Longrightarrow>
   scan_each env entries s = (replicate (length entries) False, s)"
  by (induction entries arbitrary: s) auto

lemma processDirectory_scan_each:
  assumes "fs_is_directory (files s) d" and "scanError env d = None"
    and "\<forall>e \<in> set (directory_entries (files s) d). map_of (files s) e \<noteq> Some LinkLoop"
  shows "processDirectory env d s =
    (Inr (True \<in> set (fst (scan_each env (directory_entries (files s) d) s))),
     if True \<in> set (fst (scan_each env (directory_entries (files s) d) s))
     then snd (scan_each env (directory_entries (files s) d) s)
     else (snd (scan_each env (directory_entries (files s) d) s))
            \<lparr>console_out :=
               console_out (snd (scan_each env (directory_entries (files s) d) s)) @
               ''No image files found in '' @ d @ nl\<rparr>)"
  using assms(1,2) directory_exists [OF assms(1)]
  by (simp add: processDirectory_def directory_iterator_def
      processDirectory_loop_scan_each [OF assms(3)])

lemma Logger_path: "logFilePath (logger (Logger env s)) = detectLogFilePath env"
  by (simp add: Logger_def Let_def split: prod.splits bool.splits)

lemma processFiles_move_each:
  "processFiles env items s =
     (True \<in> set (fst (move_each env items s)),
      if True \<in> set (fst (move_each env items s)) then snd (move_each env items s)
      else (snd (move_each env items s))
             \<lparr>console_out :=
                console_out (snd (move_each env items s)) @
                ''No image files were processed.'' @ nl\<rparr>)"
  by (simp add: processFiles_def processFiles_loop_move_each)

lemma runApplication_files:
  assumes "args \<noteq> []"
    and "length args = 1 \<longrightarrow>
         \<not> is_log_token (args ! 0) \<and> \<not> fs_is_directory (files (Logger env s)) (args ! 0)"
  shows "runApplication env args s =
    (case processFiles env args (Logger env s) of
       (success, s') \<Rightarrow>
         (Inr (if success then 0 else 1),
          close_Logger
            (s'\<lparr>console_out :=
                 console_out s' @
                 ''Finished processing files. Check the log for any errors: '' @
                 detectLogFilePath env @ nl\<rparr>)))"
  using assms
  unfolding runApplication_def Let_def normaliseArguments_def is_log_token_def Logger_path
  by (auto split: prod.splits)

lemma runApplication_folder:
  assumes "\<not> is_log_token d" and "fs_is_directory (files (Logger env s)) d"
  shows "runApplication env [d] s =
    (case processDirectory env d (Logger env s) of
       (Inl e, s') \<Rightarrow> (Inl e, s')
     | (Inr success, s') \<Rightarrow>
         (Inr (if success then 0 else 1),
          close_Logger
            (s'\<lparr>console_out :=
                 console_out s' @ ''Finished processing folder.'' @ nl @
                 ''Check the log for any errors: '' @ detectLogFilePath env @ nl\<rparr>)))"
  using assms directory_exists [OF assms(2)]
  unfolding runApplication_def Let_def normaliseArguments_def is_log_token_def Logger_path
  by (auto split: prod.splits sum.splits)

lemmas run_eval = world0_def env0_def Logger_def detectLogFilePath_def open_append_def
  isImageFile_def toLowerCopy_def tolower_Char kExtensions_def
  fs_create_directories.simps fs_create_directory_def
  moveFileToFolder_def ensureDirectory_def fs_rename_def logError_def logInfo_def
  close_Logger_def update_conv' delete_conv' is_log_token_def showLogLong_def
  showLogShort_def clearLogLong_def clearLogShort_def directory_entries_def

text \<open>
  Claim C3, as stated, fails: the folder \<^verbatim>\<open>/home/docs\<close> holds one entry, a regular file
  with an unsupported extension, and the scan writes no line to the log stream: after the
  scan the stream holds the run-start marker only, and after the whole run so does the log
  file. The scanner tests the extension itself and hands the mover supported files only.
\<close>

theorem scan_logs_no_skip_line:
  "directory_entries (files (Logger env0 world_docs)) ''/home/docs'' = [''/home/docs/notes.txt''] \<and>
   fs_is_regular_file (files (Logger env0 world_docs)) ''/home/docs/notes.txt'' \<and>
   \<not> isImageFile ''/home/docs/notes.txt'' \<and>
   stream_good (logger (Logger env0 world_docs)) \<and>
   fst (processDirectory env0 ''/home/docs'' (Logger env0 world_docs)) = Inr False \<and>
   stream_buffer (logger (snd (processDirectory env0 ''/home/docs'' (Logger env0 world_docs)))) =
     ''--- Run started at 2024-05-01 10:00:00 ---'' @ nl \<and>
   fst (runApplication env0 [''/home/docs''] world_docs) = Inr 1 \<and>
   map_of (files (snd (runApplication env0 [''/home/docs''] world_docs))) ''/tmp/PushToFolders.log'' =
     Some (RegularFile (''--- Run started at 2024-05-01 10:00:00 ---'' @ nl))"
  by (simp add: path_eval fs_eval world_docs_def env0_def Logger_def detectLogFilePath_def
      open_append_def directory_entries_def isImageFile_def toLowerCopy_def tolower_Char
      kExtensions_def processDirectory_def directory_iterator_def processDirectory_entry_def
      entry_is_regular_file_def
      runApplication_def normaliseArguments_def showLogLong_def showLogShort_def
      clearLogLong_def clearLogShort_def close_Logger_def update_conv')

text \<open>
  Claim C3, amended. In a folder scan that no exception cuts short (the enumeration does
  not fail and the status of every entry can be read) the entries of the directory are
  visited once each, in the order of the enumeration, and an entry is passed to the mover
  exactly when it is a regular file with a supported extension: the scan is the reference
  run \<open>scan_each\<close> over the entries of the directory, one outcome per entry, and it returns
  whether some entry was moved. Consequently, scanning a directory none of whose entries
  has a supported extension writes no line to the log (neither INFO nor ERROR), changes no
  file, reports zero moves (returns false) and prints \<^verbatim>\<open>No image files found in <directory>\<close>.
\<close>

theorem folder_scan_entries:
  "fs_is_directory (files s) d \<and> scanError env d = None \<and>
   (\<forall>e \<in> set (directory_entries (files s) d). map_of (files s) e \<noteq> Some LinkLoop) \<longrightarrow>
   length (fst (scan_each env (directory_entries (files s) d) s)) =
     length (directory_entries (files s) d) \<and>
   processDirectory env d s =
     (Inr (True \<in> set (fst (scan_each env (directory_entries (files s) d) s))),
      if True \<in> set (fst (scan_each env (directory_entries (files s) d) s))
      then snd (scan_each env (directory_entries (files s) d) s)
      else (snd (scan_each env (directory_entries (files s) d) s))
             \<lparr>console_out :=
                console_out (snd (scan_each env (directory_entries (files s) d) s)) @
                ''No image files found in '' @ d @ nl\<rparr>) \<and>
   ((\<forall>e \<in> set (directory_entries (files s) d). \<not> isImageFile e) \<longrightarrow>
    processDirectory env d s =
      (Inr False, s\<lparr>console_out := console_out s @ ''No image files found in '' @ d @ nl\<rparr>))"
proof
  assume h: "fs_is_directory (files s) d \<and> scanError env d = None \<and>
    (\<forall>e \<in> set (directory_entries (files s) d). map_of (files s) e \<noteq> Some LinkLoop)"
  then have dir: "fs_is_directory (files s) d" and ok: "scanError env d = None"
    and nl: "\<forall>e \<in> set (directory_entries (files s) d). map_of (files s) e \<noteq> Some LinkLoop"
    by auto
  note run = processDirectory_scan_each [OF dir ok nl]
  have a: "length (fst (scan_each env (directory_entries (files s) d) s)) =
      length (directory_entries (files s) d)"
    by (rule length_scan_each)
  have b: "processDirectory env d s =
      (Inr False, s\<lparr>console_out := console_out s @ ''No image files found in '' @ d @ nl\<rparr>)"
    if un: "\<forall>e \<in> set (directory_entries (files s) d). \<not> isImageFile e"
    using run scan_each_unsupported [OF un, of env s] by simp
  show "length (fst (scan_each env (directory_entries (files s) d) s)) =
      length (directory_entries (files s) d) \<and>
    processDirectory env d s =
      (Inr (True \<in> set (fst (scan_each env (directory_entries (files s) d) s))),
       if True \<in> set (fst (scan_each env (directory_entries (files s) d) s))
       then snd (scan_each env (directory_entries (files s) d) s)
       else (snd (scan_each env (directory_entries (files s) d) s))
              \<lparr>console_out :=
                 console_out (snd (scan_each env (directory_entries (files s) d) s)) @
                 ''No image files found in '' @ d @ nl\<rparr>) \<and>
    ((\<forall>e \<in> set (directory_entries (files s) d). \<not> isImageFile e) \<longrightarrow>
     processDirectory env d s =
       (Inr False, s\<lparr>console_out := console_out s @ ''No image files found in '' @ d @ nl\<rparr>))"
    using a run b by blast
qed

theorem folder_scan_entries_witness:
  "directory_entries (files world0) ''/home/pics'' =
     [''/home/pics/photo.png'', ''/home/pics/.png'', ''/home/pics/notes.txt'',
      ''/home/pics/cat.jpg'', ''/home/pics/cat''] \<and>
   fst (scan_each env0 (directory_entries (files world0) ''/home/pics'') world0) =
     [True, False, False, False, False] \<and>
   fst (processDirectory env0 ''/home/pics'' world0) = Inr True \<and>
   map_of (files (snd (processDirectory env0 ''/home/pics'' world0)))
     ''/home/pics/photo/photo.png'' = Some (RegularFile ''PNG'') \<and>
   map_of (files (snd (processDirectory env0 ''/home/pics'' world0)))
     ''/home/pics/notes.txt'' = Some (RegularFile ''txt'') \<and>
   processDirectory env0 ''/home/docs'' (Logger env0 world_docs) =
     (Inr False,
      (Logger env0 world_docs)\<lparr>console_out := ''No image files found in /home/docs'' @ nl\<rparr>)"
proof -
  have en: "directory_entries (files world0) ''/home/pics'' =
     [''/home/pics/photo.png'', ''/home/pics/.png'', ''/home/pics/notes.txt'',
      ''/home/pics/cat.jpg'', ''/home/pics/cat'']"
    by (simp add: directory_entries_def world0_def path_eval)
  have sc: "fst (scan_each env0 [''/home/pics/photo.png'', ''/home/pics/.png'',
        ''/home/pics/notes.txt'', ''/home/pics/cat.jpg'', ''/home/pics/cat''] world0) =
      [True, False, False, False, False] \<and>
    map_of (files (snd (scan_each env0 [''/home/pics/photo.png'', ''/home/pics/.png'',
        ''/home/pics/notes.txt'', ''/home/pics/cat.jpg'', ''/home/pics/cat''] world0)))
      ''/home/pics/photo/photo.png'' = Some (RegularFile ''PNG'') \<and>
    map_of (files (snd (scan_each env0 [''/home/pics/photo.png'', ''/home/pics/.png'',
        ''/home/pics/notes.txt'', ''/home/pics/cat.jpg'', ''/home/pics/cat''] world0)))
      ''/home/pics/notes.txt'' = Some (RegularFile ''txt'')"
    by (simp add: path_eval fs_eval run_eval)
  have h: "fs_is_directory (files world0) ''/home/pics'' \<and> scanError env0 ''/home/pics'' = None \<and>
      (\<forall>e \<in> set (directory_entries (files world0) ''/home/pics'').
          map_of (files world0) e \<noteq> Some LinkLoop)"
    unfolding en by (simp add: fs_eval world0_def env0_def)
  have a: "fst (processDirectory env0 ''/home/pics'' world0) = Inr True \<and>
     map_of (files (snd (processDirectory env0 ''/home/pics'' world0)))
       ''/home/pics/photo/photo.png'' = Some (RegularFile ''PNG'') \<and>
     map_of (files (snd (processDirectory env0 ''/home/pics'' world0)))
       ''/home/pics/notes.txt'' = Some (RegularFile ''txt'')"
    using folder_scan_entries [of world0 "''/home/pics''" env0, THEN mp, OF h] sc
    unfolding en by simp
  have b: "processDirectory env0 ''/home/docs'' (Logger env0 world_docs) =
     (Inr False,
      (Logger env0 world_docs)\<lparr>console_out := ''No image files found in /home/docs'' @ nl\<rparr>)"
    using folder_scan_entries [of "Logger env0 world_docs" "''/home/docs''" env0]
    by (simp add: path_eval fs_eval world_docs_def env0_def Logger_def detectLogFilePath_def
        open_append_def directory_entries_def isImageFile_def toLowerCopy_def tolower_Char
        kExtensions_def)
  show ?thesis using en sc a b by simp
qed

text \<open>
  Batches that no exception cuts short. For an explicit file list (one or more arguments
  that are not a lone log token and not a lone directory) the run equals the reference
  run \<open>move_each\<close> over the arguments: every item is handled once, in order, whatever the
  outcome of the items before it, and the exit status is 0 when at least one item was
  moved and 1 otherwise. The same holds of a folder scan (one argument that is not a log
  token and is a directory), with \<open>scan_each\<close> over the entries of the directory, as long
  as the enumeration does not fail and the status of every entry can be read.
\<close>

lemma file_list_batch:
  assumes "args \<noteq> []"
    and "length args = 1 \<longrightarrow>
       \<not> is_log_token (args ! 0) \<and> \<not> fs_is_directory (files (Logger env s)) (args ! 0)"
  shows "length (fst (move_each env args (Logger env s))) = length args \<and>
    runApplication env args s =
      (Inr (if True \<in> set (fst (move_each env args (Logger env s))) then 0 else 1),
       close_Logger
         ((snd (move_each env args (Logger env s)))
            \<lparr>console_out :=
               console_out (snd (move_each env args (Logger env s))) @
               (if True \<in> set (fst (move_each env args (Logger env s))) then []
                else ''No image files were processed.'' @ nl) @
               ''Finished processing files. Check the log for any errors: '' @
               detectLogFilePath env @ nl\<rparr>))"
  using runApplication_files [OF assms] length_move_each [of env args "Logger env s"]
  by (simp add: processFiles_move_each)

lemma folder_scan_batch:
  assumes "\<not> is_log_token d" and "fs_is_directory (files (Logger env s)) d"
    and "scanError env d = None"
    and "\<forall>e \<in> set (directory_entries (files (Logger env s)) d).
           map_of (files (Logger env s)) e \<noteq> Some LinkLoop"
  shows "runApplication env [d] s =
      (Inr (if True \<in> set (fst (scan_each env (directory_entries (files (Logger env s)) d)
                                   (Logger env s)))
            then 0 else 1),
       close_Logger
         ((snd (scan_each env (directory_entries (files (Logger env s)) d) (Logger env s)))
            \<lparr>console_out :=
               console_out
                 (snd (scan_each env (directory_entries (files (Logger env s)) d)
                         (Logger env s))) @
               (if True \<in> set (fst (scan_each env (directory_entries (files (Logger env s)) d)
                                      (Logger env s)))
                then [] else ''No image files found in '' @ d @ nl) @
               ''Finished processing folder.'' @ nl @
               ''Check the log for any errors: '' @ detectLogFilePath env @ nl\<rparr>))"
  using runApplication_folder [OF assms(1,2)] processDirectory_scan_each [OF assms(2,3,4)]
  by simp

text \<open>
  Claim C7 at a failing input. The folder \<^verbatim>\<open>/pics\<close> holds the picture \<^verbatim>\<open>a.png\<close>, a symbolic
  link \<^verbatim>\<open>loop\<close> whose status cannot be read, and the picture \<^verbatim>\<open>b.png\<close>, enumerated in this
  order. The scan moves \<^verbatim>\<open>a.png\<close>; at the link \<^verbatim>\<open>entry.is_regular_file()\<close> throws, nothing
  catches the exception and the process ends: \<^verbatim>\<open>b.png\<close> is never looked at and stays where
  it was, the run has no exit status of its own although an item was moved, and the log
  lines of the run are lost with the stream. Given the same three paths as a file list,
  the program reports the link as an error, goes on, moves both pictures and exits
  with 0.
\<close>

theorem unreadable_entry_aborts_scan:
  "directory_entries (files (Logger env0 world_loop)) ''/pics'' =
     [''/pics/a.png'', ''/pics/loop'', ''/pics/b.png''] \<and>
   map_of (files world_loop) ''/pics/loop'' = Some LinkLoop \<and>
   fst (runApplication env0 [''/pics''] world_loop) = Inl filesystem_error \<and>
   map_of (files (snd (runApplication env0 [''/pics''] world_loop))) ''/pics/a/a.png'' =
     Some (RegularFile ''a'') \<and>
   map_of (files (snd (runApplication env0 [''/pics''] world_loop))) ''/pics/b.png'' =
     Some (RegularFile ''b'') \<and>
   map_of (files (snd (runApplication env0 [''/pics''] world_loop))) ''/pics/b/b.png'' = None \<and>
   map_of (files (snd (runApplication env0 [''/pics''] world_loop))) ''/tmp/PushToFolders.log'' =
     Some (RegularFile ''old log'') \<and>
   fst (runApplication env0 [''/pics/a.png'', ''/pics/loop'', ''/pics/b.png''] world_loop) =
     Inr 0 \<and>
   map_of (files (snd (runApplication env0 [''/pics/a.png'', ''/pics/loop'', ''/pics/b.png'']
       world_loop))) ''/pics/a/a.png'' = Some (RegularFile ''a'') \<and>
   map_of (files (snd (runApplication env0 [''/pics/a.png'', ''/pics/loop'', ''/pics/b.png'']
       world_loop))) ''/pics/b/b.png'' = Some (RegularFile ''b'') \<and>
   console_err (snd (runApplication env0 [''/pics/a.png'', ''/pics/loop'', ''/pics/b.png'']
       world_loop)) = ''File not found: /pics/loop'' @ nl"
  by (simp add: runApplication_def normaliseArguments_def processDirectory_def
      directory_iterator_def processDirectory_entry_def entry_is_regular_file_def
      processFiles_def path_eval fs_eval run_eval world_loop_def)

subsection \<open>Dispatcher and the log\<close>

lemma open_append_frame:
  "q \<noteq> p \<Longrightarrow> map_of (snd (open_append env p fs)) q = map_of fs q"
  by (auto simp: open_append_def update_conv' split: option.splits node.splits)

lemma open_trunc_frame:
  "q \<noteq> p \<Longrightarrow> map_of (snd (open_trunc env p fs)) q = map_of fs q"
  by (auto simp: open_trunc_def update_conv' split: option.splits node.splits)

lemma Logger_frame:
  "q \<noteq> detectLogFilePath env \<Longrightarrow> map_of (files (Logger env s)) q = map_of (files s) q"
  using open_append_frame [of q "detectLogFilePath env" env "files s"]
  by (auto simp: Logger_def Let_def split: prod.splits bool.splits)

lemma close_Logger_frame:
  "q \<noteq> logFilePath (logger s) \<Longrightarrow> map_of (files (close_Logger s)) q = map_of (files s) q"
  by (auto simp: close_Logger_def Let_def update_conv' split: option.splits node.splits)

lemma close_Logger_console:
  "console_out (close_Logger s) = console_out s \<and> console_err (close_Logger s) = console_err s"
  by (simp add: close_Logger_def Let_def)

lemma token_distinct:
  "showLogLong \<noteq> clearLogLong" "showLogLong \<noteq> clearLogShort"
  "showLogShort \<noteq> clearLogLong" "showLogShort \<noteq> clearLogShort"
  by (simp_all add: showLogLong_def showLogShort_def clearLogLong_def clearLogShort_def)

lemma runApplication_show:
  assumes "a = showLogLong \<or> a = showLogShort"
  shows "runApplication env [a] s =
    (case readFileContents env (detectLogFilePath env) (files (Logger env s)) of
       None \<Rightarrow>
         (Inr 1,
          close_Logger
            ((Logger env s)
               \<lparr>console_err :=
                  console_err (Logger env s) @ ''No log file found at '' @
                  detectLogFilePath env @ nl\<rparr>))
     | Some contents \<Rightarrow>
         (Inr 0,
          close_Logger
            ((Logger env s)
               \<lparr>console_out :=
                  console_out (Logger env s) @ ''Log file: '' @ detectLogFilePath env @ nl @
                  contents\<rparr>)))"
  using assms
  unfolding runApplication_def Let_def normaliseArguments_def Logger_path
  by auto

lemma runApplication_clear:
  assumes "a = clearLogLong \<or> a = clearLogShort"
  shows "runApplication env [a] s =
    (case clearLogFile env (detectLogFilePath env) (files (Logger env s)) of
       (True, fs') \<Rightarrow>
         (Inr 0,
          close_Logger
            ((Logger env s)
               \<lparr>files := fs',
                  console_out :=
                    console_out (Logger env s) @ ''Log file cleared: '' @
                    detectLogFilePath env @ nl\<rparr>))
     | (False, fs') \<Rightarrow>
         (Inr 1,
          close_Logger
            ((Logger env s)
               \<lparr>files := fs',
                  console_err :=
                    console_err (Logger env s) @ ''Unable to clear log file at '' @
                    detectLogFilePath env @ nl\<rparr>)))"
  using assms token_distinct
  unfolding runApplication_def Let_def normaliseArguments_def Logger_path
  by auto

text \<open>
  Claim C9. A lone show-log or clear-log token runs the log command: the result is that
  of reading (truncating) the log file, and no path other than the log file changes, so
  the argument is never taken as a directory or a file, whatever the file system holds
  under that name. With two or more arguments every argument, a token included, is passed
  to the mover as a file path: the run is the reference run \<open>move_each\<close> over all arguments.
\<close>

theorem log_token_dispatch:
  "(a = showLogLong \<or> a = showLogShort \<longrightarrow>
      runApplication env [a] s =
        (case readFileContents env (detectLogFilePath env) (files (Logger env s)) of
           None \<Rightarrow>
             (Inr 1,
              close_Logger
                ((Logger env s)
                   \<lparr>console_err :=
                      console_err (Logger env s) @ ''No log file found at '' @
                      detectLogFilePath env @ nl\<rparr>))
         | Some contents \<Rightarrow>
             (Inr 0,
              close_Logger
                ((Logger env s)
                   \<lparr>console_out :=
                      console_out (Logger env s) @ ''Log file: '' @ detectLogFilePath env @
                      nl @ contents\<rparr>))) \<and>
      (q \<noteq> detectLogFilePath env \<longrightarrow>
         map_of (files (snd (runApplication env [a] s))) q = map_of (files s) q)) \<and>
   (a = clearLogLong \<or> a = clearLogShort \<longrightarrow>
      runApplication env [a] s =
        (case clearLogFile env (detectLogFilePath env) (files (Logger env s)) of
           (True, fs') \<Rightarrow>
             (Inr 0,
              close_Logger
                ((Logger env s)
                   \<lparr>files := fs',
                      console_out :=
                        console_out (Logger env s) @ ''Log file cleared: '' @
                        detectLogFilePath env @ nl\<rparr>))
         | (False, fs') \<Rightarrow>
             (Inr 1,
              close_Logger
                ((Logger env s)
                   \<lparr>files := fs',
                      console_err :=
                        console_err (Logger env s) @ ''Unable to clear log file at '' @
                        detectLogFilePath env @ nl\<rparr>))) \<and>
      (q \<noteq> detectLogFilePath env \<longrightarrow>
         map_of (files (snd (runApplication env [a] s))) q = map_of (files s) q)) \<and>
   (2 \<le> length args \<longrightarrow>
      runApplication env args s =
        (Inr (if True \<in> set (fst (move_each env args (Logger env s))) then 0 else 1),
         close_Logger
           ((snd (move_each env args (Logger env s)))
              \<lparr>console_out :=
                 console_out (snd (move_each env args (Logger env s))) @
                 (if True \<in> set (fst (move_each env args (Logger env s))) then []
                  else ''No image files were processed.'' @ nl) @
                 ''Finished processing files. Check the log for any errors: '' @
                 detectLogFilePath env @ nl\<rparr>)))"
proof -
  have show_frame: "map_of (files (snd (runApplication env [a] s))) q = map_of (files s) q"
    if t: "a = showLogLong \<or> a = showLogShort" and q: "q \<noteq> detectLogFilePath env"
    using q Logger_frame [OF q, of s]
    by (simp add: runApplication_show [OF t] close_Logger_frame Logger_path
        split: option.splits)
  have clear_frame: "map_of (files (snd (runApplication env [a] s))) q = map_of (files s) q"
    if t: "a = clearLogLong \<or> a = clearLogShort" and q: "q \<noteq> detectLogFilePath env"
  proof -
    obtain ok fs' where c:
      "clearLogFile env (detectLogFilePath env) (files (Logger env s)) = (ok, fs')" by force
    have "map_of fs' q = map_of (files (Logger env s)) q"
      using open_trunc_frame [OF q, of env "files (Logger env s)"] c
      by (simp add: clearLogFile_def)
    then show ?thesis
      using q c Logger_frame [OF q, of s]
      by (cases ok) (simp_all add: runApplication_clear [OF t] close_Logger_frame Logger_path)
  qed
  have many: "runApplication env args s =
        (Inr (if True \<in> set (fst (move_each env args (Logger env s))) then 0 else 1),
         close_Logger
           ((snd (move_each env args (Logger env s)))
              \<lparr>console_out :=
                 console_out (snd (move_each env args (Logger env s))) @
                 (if True \<in> set (fst (move_each env args (Logger env s))) then []
                  else ''No image files were processed.'' @ nl) @
                 ''Finished processing files. Check the log for any errors: '' @
                 detectLogFilePath env @ nl\<rparr>))"
    if l: "2 \<le> length args"
  proof -
    have ne: "args \<noteq> []" using l by auto
    have one: "length args = 1 \<longrightarrow>
         \<not> is_log_token (args ! 0) \<and> \<not> fs_is_directory (files (Logger env s)) (args ! 0)"
      using l by simp
    show ?thesis
      using runApplication_files [OF ne one] by (simp add: processFiles_move_each)
  qed
  show ?thesis
    using show_frame clear_frame many runApplication_show [of a env s]
      runApplication_clear [of a env s]
    by blast
qed

lemma clear_run_log:
  assumes "c = clearLogLong \<or> c = clearLogShort"
    and "runApplication env [c] s = (Inr 0, s1)"
  shows "map_of (files s1) (detectLogFilePath env) =
    Some (RegularFile (''--- Run started at '' @ clock env @ '' ---'' @ nl))"
  using assms(2)
  by (auto simp: runApplication_clear [OF assms(1)] clearLogFile_def open_trunc_def
      Logger_def open_append_def close_Logger_def Let_def update_conv'
      split: option.splits node.splits if_splits prod.splits bool.splits)

lemma show_run_log:
  assumes "a = showLogLong \<or> a = showLogShort"
    and "map_of (files s1) (detectLogFilePath env) = Some (RegularFile contents)"
  shows "(openError env (detectLogFilePath env) \<longrightarrow>
      fst (runApplication env [a] s1) = Inr 1 \<and>
      console_out (snd (runApplication env [a] s1)) = console_out s1) \<and>
    (\<not> openError env (detectLogFilePath env) \<longrightarrow>
      fst (runApplication env [a] s1) = Inr 0 \<and>
      console_out (snd (runApplication env [a] s1)) =
        console_out s1 @ ''Log file: '' @ detectLogFilePath env @ nl @ contents)"
  using assms(2)
  by (auto simp: runApplication_show [OF assms(1)] readFileContents_def
      Logger_def open_append_def close_Logger_console Let_def)

lemmas state_eval = path_eval fs_eval env0_def Logger_def detectLogFilePath_def open_append_def
  open_trunc_def clearLogFile_def readFileContents_def close_Logger_def logError_def
  logInfo_def update_conv' delete_conv' showLogLong_def showLogShort_def clearLogLong_def
  clearLogShort_def isImageFile_def toLowerCopy_def tolower_Char kExtensions_def

lemmas mover_eval = moveFileToFolder_def ensureDirectory_def fs_rename_def
  fs_create_directories.simps fs_create_directory_def

theorem log_token_dispatch_witness:
  "fst (runApplication env0 [''--show-log''] world_tokens) = Inr 0 \<and>
   console_out (snd (runApplication env0 [''--show-log''] world_tokens)) =
     ''Log file: /tmp/PushToFolders.log'' @ nl @ ''old log'' \<and>
   map_of (files (snd (runApplication env0 [''--show-log''] world_tokens))) ''--show-log/pic.png'' =
     Some (RegularFile ''p'') \<and>
   fst (runApplication env0 [''--clear-log''] world_tokens) = Inr 0 \<and>
   map_of (files (snd (runApplication env0 [''--clear-log''] world_tokens))) ''--clear-log'' =
     Some (RegularFile ''f'') \<and>
   fst (runApplication env0 [''--show-log'', ''--clear-log''] world_tokens) = Inr 1 \<and>
   console_err (snd (runApplication env0 [''--show-log'', ''--clear-log''] world_tokens)) =
     ''Not a file: --show-log'' @ nl"
proof -
  have a: "fst (runApplication env0 [''--show-log''] world_tokens) = Inr 0 \<and>
   console_out (snd (runApplication env0 [''--show-log''] world_tokens)) =
     ''Log file: /tmp/PushToFolders.log'' @ nl @ ''old log''"
    using log_token_dispatch [where a = "''--show-log''" and env = env0 and s = world_tokens,
        THEN conjunct1]
    by (simp add: state_eval world_tokens_def)
  have tok_show: "''--show-log'' = showLogLong \<or> ''--show-log'' = showLogShort"
    by (simp add: showLogLong_def)
  have tok_clear: "''--clear-log'' = clearLogLong \<or> ''--clear-log'' = clearLogShort"
    by (simp add: clearLogLong_def)
  have q1: "''--show-log/pic.png'' \<noteq> detectLogFilePath env0"
    by (simp add: detectLogFilePath_def env0_def path_append_def sep_def)
  have q2: "''--clear-log'' \<noteq> detectLogFilePath env0"
    by (simp add: detectLogFilePath_def env0_def path_append_def sep_def)
  have "map_of (files (snd (runApplication env0 [''--show-log''] world_tokens)))
      ''--show-log/pic.png'' = map_of (files world_tokens) ''--show-log/pic.png''"
    using log_token_dispatch [where a = "''--show-log''" and env = env0 and s = world_tokens
        and q = "''--show-log/pic.png''", THEN conjunct1, THEN mp, OF tok_show,
        THEN conjunct2, THEN mp, OF q1] .
  then have b: "map_of (files (snd (runApplication env0 [''--show-log''] world_tokens)))
      ''--show-log/pic.png'' = Some (RegularFile ''p'')"
    by (simp add: world_tokens_def)
  have c: "fst (runApplication env0 [''--clear-log''] world_tokens) = Inr 0"
    using log_token_dispatch [where a = "''--clear-log''" and env = env0 and s = world_tokens,
        THEN conjunct2, THEN conjunct1]
    by (simp add: state_eval world_tokens_def)
  have "map_of (files (snd (runApplication env0 [''--clear-log''] world_tokens)))
      ''--clear-log'' = map_of (files world_tokens) ''--clear-log''"
    using log_token_dispatch [where a = "''--clear-log''" and env = env0 and s = world_tokens
        and q = "''--clear-log''", THEN conjunct2, THEN conjunct1, THEN mp, OF tok_clear,
        THEN conjunct2, THEN mp, OF q2] .
  then have d: "map_of (files (snd (runApplication env0 [''--clear-log''] world_tokens)))
      ''--clear-log'' = Some (RegularFile ''f'')"
    by (simp add: world_tokens_def)
  have e: "fst (runApplication env0 [''--show-log'', ''--clear-log''] world_tokens) = Inr 1 \<and>
   console_err (snd (runApplication env0 [''--show-log'', ''--clear-log''] world_tokens)) =
     ''Not a file: --show-log'' @ nl"
    using log_token_dispatch [where args = "[''--show-log'', ''--clear-log'']" and env = env0
        and s = world_tokens, THEN conjunct2, THEN conjunct2]
    by (simp add: state_eval mover_eval world_tokens_def)
  show ?thesis using a b c d e by simp
qed

text \<open>
  Claim C4, as stated, fails: after \<^verbatim>\<open>--clear-log\<close> has run and exited with 0, a run of
  \<^verbatim>\<open>--show-log\<close> five seconds later exits with 0 and prints a log that is neither absent
  nor empty: it holds the run-start marker of the clearing run, which the destructor of
  its \<^verbatim>\<open>Logger\<close> wrote after the file had been truncated.
\<close>

theorem show_after_clear_not_empty:
  "fst (runApplication env0 [''--clear-log''] world_log) = Inr 0 \<and>
   fst (runApplication env_later [''--show-log'']
          (snd (runApplication env0 [''--clear-log''] world_log))) = Inr 0 \<and>
   console_out (snd (runApplication env_later [''--show-log'']
          (snd (runApplication env0 [''--clear-log''] world_log)))) =
     ''Log file cleared: /tmp/PushToFolders.log'' @ nl @
     ''Log file: /tmp/PushToFolders.log'' @ nl @
     ''--- Run started at 2024-05-01 10:00:00 ---'' @ nl"
  by (simp add: runApplication_def normaliseArguments_def state_eval env_later_def
      world_log_def)

text \<open>
  Claim C4, amended. When a clear-log invocation that succeeded (exit status 0) is
  followed by a show-log invocation using the same log file, the show-log invocation either
  cannot open the log and exits with 1 printing nothing on the standard output, or exits
  with 0 and prints, after the line naming the log file, exactly the run-start marker of
  the clear-log invocation: no entry from before the clearing is shown.
\<close>

theorem clear_then_show:
  assumes "c = clearLogLong \<or> c = clearLogShort" and "a = showLogLong \<or> a = showLogShort"
    and "tempDirectory env2 = tempDirectory env1"
    and "runApplication env1 [c] s = (Inr 0, s1)"
  shows "(openError env2 (detectLogFilePath env2) \<longrightarrow>
      fst (runApplication env2 [a] s1) = Inr 1 \<and>
      console_out (snd (runApplication env2 [a] s1)) = console_out s1) \<and>
    (\<not> openError env2 (detectLogFilePath env2) \<longrightarrow>
      fst (runApplication env2 [a] s1) = Inr 0 \<and>
      console_out (snd (runApplication env2 [a] s1)) =
        console_out s1 @ ''Log file: '' @ detectLogFilePath env2 @ nl @
        ''--- Run started at '' @ clock env1 @ '' ---'' @ nl)"
proof -
  have p: "detectLogFilePath env2 = detectLogFilePath env1"
    using assms(3) by (simp add: detectLogFilePath_def)
  have "map_of (files s1) (detectLogFilePath env2) =
      Some (RegularFile (''--- Run started at '' @ clock env1 @ '' ---'' @ nl))"
    using clear_run_log [OF assms(1) assms(4)] p by simp
  then show ?thesis by (rule show_run_log [OF assms(2)])
qed

theorem clear_then_show_witness:
  "runApplication env0 [''--clear-log''] world_log = (Inr 0, world_cleared) \<and>
   fst (runApplication env_later [''/showlog''] world_cleared) = Inr 0 \<and>
   console_out (snd (runApplication env_later [''/showlog''] world_cleared)) =
     ''Log file cleared: /tmp/PushToFolders.log'' @ nl @
     ''Log file: /tmp/PushToFolders.log'' @ nl @
     ''--- Run started at 2024-05-01 10:00:00 ---'' @ nl"
proof -
  have h: "runApplication env0 [''--clear-log''] world_log = (Inr 0, world_cleared)"
    by (simp add: runApplication_def normaliseArguments_def state_eval world_log_def
        world_cleared_def)
  have t: "tempDirectory env_later = tempDirectory env0"
    by (simp add: env_later_def)
  show ?thesis
    using h clear_then_show [where c = "''--clear-log''" and a = "''/showlog''", OF _ _ t h]
    by (simp add: clearLogLong_def showLogShort_def env_later_def env0_def
        detectLogFilePath_def path_append_def sep_def world_cleared_def)
qed








text \<open>
  Claim C5 at two failing inputs. When the increment of the directory iterator fails
  after the first entry, \<^verbatim>\<open>processDirectory\<close> is left by the exception: no ERROR line is
  written, nothing reaches the log file, and the run has no exit status of its own. When
  the iterator cannot be constructed, the loop body with the check of \<open>ec\<close> never runs:
  the scan reports \<^verbatim>\<open>No image files found\<close>, writes no ERROR line and nothing to the
  error console, and only the exit status 1 tells of a failure.
\<close>

theorem scan_failure_not_logged:
  "fst (processDirectory env_scan_fails_midway ''/pics'' (Logger env0 world_two_pics)) =
     Inl filesystem_error \<and>
   stream_buffer (logger (snd (processDirectory env_scan_fails_midway ''/pics''
       (Logger env0 world_two_pics)))) =
     ''--- Run started at 2024-05-01 10:00:00 ---'' @ nl @
     ''[2024-05-01 10:00:00] INFO: Moved /pics/a.png to /pics/a'' @ nl \<and>
   fst (runApplication env_scan_fails_midway [''/pics''] world_two_pics) = Inl filesystem_error \<and>
   map_of (files (snd (runApplication env_scan_fails_midway [''/pics''] world_two_pics)))
       ''/tmp/PushToFolders.log'' = Some (RegularFile ''old log'') \<and>
   console_err (snd (runApplication env_scan_fails_midway [''/pics''] world_two_pics)) = [] \<and>
   fst (runApplication env_scan_fails_at_open [''/pics''] world_two_pics) = Inr 1 \<and>
   map_of (files (snd (runApplication env_scan_fails_at_open [''/pics''] world_two_pics)))
       ''/tmp/PushToFolders.log'' =
     Some (RegularFile (''old log'' @ ''--- Run started at 2024-05-01 10:00:00 ---'' @ nl)) \<and>
   console_err (snd (runApplication env_scan_fails_at_open [''/pics''] world_two_pics)) = [] \<and>
   console_out (snd (runApplication env_scan_fails_at_open [''/pics''] world_two_pics)) =
     ''No image files found in /pics'' @ nl @ ''Finished processing folder.'' @ nl @
     ''Check the log for any errors: /tmp/PushToFolders.log'' @ nl"
  by (simp add: runApplication_def normaliseArguments_def processDirectory_def
      directory_iterator_def directory_entries_def processDirectory_entry_def
      entry_is_regular_file_def state_eval
      mover_eval world_two_pics_def env_scan_fails_midway_def env_scan_fails_at_open_def)

theorem scan_failure_not_logged_witness:
  "fst (processDirectory env_scan_fails_midway ''/pics'' (Logger env0 world_two_pics)) =
     Inl filesystem_error \<and>
   fst (runApplication env_scan_fails_at_open [''/pics''] world_two_pics) = Inr 1 \<and>
   console_err (snd (runApplication env_scan_fails_at_open [''/pics''] world_two_pics)) = []"
  using scan_failure_not_logged by blast

lemma loop_without_error_code:
  "fst (processDirectory_loop env d None entries k anyProcessed s) \<noteq> Returned b"
proof (induction entries arbitrary: k anyProcessed s)
  case Nil
  show ?case by simp
next
  case (Cons entry rest)
  show ?case
  proof (cases "processDirectory_entry env entry anyProcessed s")
    case (Inl e)
    then show ?thesis by simp
  next
    case (Inr r)
    obtain any' s' where r: "r = (any', s')" by force
    show ?thesis
    proof (cases k)
      case None
      then show ?thesis using Inr r Cons.IH [of None any' s'] by simp
    next
      case (Some n)
      then show ?thesis using Inr r Cons.IH [of _ any' s'] by (cases n) simp_all
    qed
  qed
qed

text \<open>
  The branch of \<^verbatim>\<open>processDirectory\<close> that logs \<^verbatim>\<open>Failed to scan directory\<close> and returns
  false is unreachable: whatever the constructor of the directory iterator yields, the
  loop never leaves through it.
\<close>

theorem scan_error_branch_unreachable:
  "directory_iterator env fs d = (ec, entries, k) \<Longrightarrow>
   fst (processDirectory_loop env d ec entries k anyProcessed s) \<noteq> Returned b"
proof -
  assume it: "directory_iterator env fs d = (ec, entries, k)"
  show ?thesis
  proof (cases ec)
    case None
    then show ?thesis by (simp add: loop_without_error_code)
  next
    case (Some message)
    with it have "entries = []"
      by (auto simp: directory_iterator_def split: option.splits prod.splits nat.splits)
    then show ?thesis by simp
  qed
qed

theorem scan_error_branch_unreachable_witness:
  "directory_iterator env0 (files world_two_pics) ''/pics'' =
     (None, [''/pics/a.png'', ''/pics/b.png''], None) \<and>
   fst (processDirectory_loop env0 ''/pics'' None [''/pics/a.png'', ''/pics/b.png''] None False
          world_two_pics) \<noteq> Returned False"
proof -
  have it: "directory_iterator env0 (files world_two_pics) ''/pics'' =
     (None, [''/pics/a.png'', ''/pics/b.png''], None)"
    by (simp add: directory_iterator_def directory_entries_def env0_def world_two_pics_def
        path_eval)
  show ?thesis
    using it scan_error_branch_unreachable [OF it, of False world_two_pics False]
    by (simp only: simp_thms)
qed

end
